theory Spec2Isabelle
  imports Complex_Main
begin

section \<open>JavaScript numbers\<close>

text \<open>
  The program computes with JavaScript numbers. Its control flow tests for \<open>NaN\<close>
  (\<open>isNaN(error)\<close>), compares with \<open><=\<close> and \<open>>\<close> (false on \<open>NaN\<close>), divides by
  values that can be zero and clamps with \<open>Math.min\<close> and \<open>Math.max\<close> (which return
  \<open>NaN\<close> as soon as one argument is \<open>NaN\<close>). The type \<open>num\<close> keeps these special
  values. Finite values are real numbers and finite arithmetic is exact: rounding,
  overflow and the sign of zero are not modelled (a division of a non-zero finite value
  by zero takes the sign of the numerator).
\<close>

datatype num = NaN | NInf | Fin real | PInf

fun isNaN :: "num \<Rightarrow> bool" where
  "isNaN NaN = True"
| "isNaN _ = False"

fun nneg :: "num \<Rightarrow> num" where
  "nneg NaN = NaN"
| "nneg NInf = PInf"
| "nneg PInf = NInf"
| "nneg (Fin a) = Fin (- a)"

fun nadd :: "num \<Rightarrow> num \<Rightarrow> num" where
  "nadd NaN _ = NaN"
| "nadd _ NaN = NaN"
| "nadd PInf NInf = NaN"
| "nadd NInf PInf = NaN"
| "nadd PInf _ = PInf"
| "nadd _ PInf = PInf"
| "nadd NInf _ = NInf"
| "nadd _ NInf = NInf"
| "nadd (Fin a) (Fin b) = Fin (a + b)"

definition nsub :: "num \<Rightarrow> num \<Rightarrow> num" where
  "nsub a b = nadd a (nneg b)"

text \<open>The sign of an infinite product or quotient: \<open>signed True\<close> is \<open>+Infinity\<close>.\<close>

definition signed :: "bool \<Rightarrow> num" where
  "signed pos = (if pos then PInf else NInf)"

fun nmul :: "num \<Rightarrow> num \<Rightarrow> num" where
  "nmul NaN _ = NaN"
| "nmul _ NaN = NaN"
| "nmul PInf PInf = PInf"
| "nmul NInf NInf = PInf"
| "nmul PInf NInf = NInf"
| "nmul NInf PInf = NInf"
| "nmul PInf (Fin b) = (if b = 0 then NaN else signed (0 < b))"
| "nmul NInf (Fin b) = (if b = 0 then NaN else signed (b < 0))"
| "nmul (Fin a) PInf = (if a = 0 then NaN else signed (0 < a))"
| "nmul (Fin a) NInf = (if a = 0 then NaN else signed (a < 0))"
| "nmul (Fin a) (Fin b) = Fin (a * b)"

fun ndiv :: "num \<Rightarrow> num \<Rightarrow> num" where
  "ndiv NaN _ = NaN"
| "ndiv _ NaN = NaN"
| "ndiv PInf (Fin b) = signed (0 \<le> b)"
| "ndiv NInf (Fin b) = signed (b < 0)"
| "ndiv (Fin a) (Fin b) =
     (if b = 0 then (if a = 0 then NaN else signed (0 < a)) else Fin (a / b))"
| "ndiv (Fin a) _ = Fin 0"
| "ndiv _ _ = NaN"

text \<open>\<open>Math.pow(v, 2)\<close>.\<close>

definition pow2 :: "num \<Rightarrow> num" where
  "pow2 v = nmul v v"

text \<open>\<open>a < b\<close>, \<open>a <= b\<close> and \<open>a > b\<close>: false as soon as one side is \<open>NaN\<close>.\<close>

fun nlt :: "num \<Rightarrow> num \<Rightarrow> bool" where
  "nlt NaN _ = False"
| "nlt _ NaN = False"
| "nlt _ NInf = False"
| "nlt NInf _ = True"
| "nlt PInf _ = False"
| "nlt _ PInf = True"
| "nlt (Fin a) (Fin b) = (a < b)"

definition nle :: "num \<Rightarrow> num \<Rightarrow> bool" where
  "nle a b = (\<not> isNaN a \<and> \<not> isNaN b \<and> (a = b \<or> nlt a b))"

definition ngt :: "num \<Rightarrow> num \<Rightarrow> bool" where
  "ngt a b = nlt b a"

text \<open>\<open>Math.max(a, b)\<close> and \<open>Math.min(a, b)\<close>.\<close>

definition nmax :: "num \<Rightarrow> num \<Rightarrow> num" where
  "nmax a b = (if isNaN a \<or> isNaN b then NaN else if nlt a b then b else a)"

definition nmin :: "num \<Rightarrow> num \<Rightarrow> num" where
  "nmin a b = (if isNaN a \<or> isNaN b then NaN else if nlt b a then b else a)"

text \<open>
  Reading a number array at an index: out of range JavaScript yields \<open>undefined\<close>, which
  every numeric operation of this program (arithmetic, \<open>Math.min\<close>, \<open>Math.max\<close>, the
  comparisons, \<open>=== 0\<close>) treats as it treats \<open>NaN\<close>.
\<close>

definition elemAt :: "num list \<Rightarrow> nat \<Rightarrow> num" where
  "elemAt xs i = (if i < length xs then xs ! i else NaN)"

section \<open>Options and their validation\<close>

text \<open>
  The values whose shape \<open>checkOptions\<close> tests at run time (\<open>typeof v === 'number'\<close>,
  \<open>isArray(v)\<close>, \<open>v === undefined\<close>, \<open>!v\<close>, \<open>v || d\<close>): \<open>undefined\<close>, a number, an
  array of numbers, or any other value, which is taken to be truthy and to have no
  \<open>length\<close> property (a plain object).
\<close>

datatype jsval = JUndefined | JNumber num | JArray "num list" | JObject

fun isArray :: "jsval \<Rightarrow> bool" where
  "isArray (JArray _) = True"
| "isArray _ = False"

fun truthy :: "jsval \<Rightarrow> bool" where
  "truthy JUndefined = False"
| "truthy (JNumber v) = (v \<noteq> NaN \<and> v \<noteq> Fin 0)"
| "truthy _ = True"

text \<open>\<open>v.length\<close>; \<open>None\<close> is \<open>undefined\<close>.\<close>

fun js_length :: "jsval \<Rightarrow> nat option" where
  "js_length (JArray xs) = Some (length xs)"
| "js_length _ = None"

fun elements :: "jsval \<Rightarrow> num list" where
  "elements (JArray xs) = xs"
| "elements _ = []"

text \<open>
  \<open>new Array(n).fill(v)\<close>. When \<open>n\<close> is \<open>undefined\<close>, \<open>new Array(undefined)\<close> is the
  one-element array \<open>[undefined]\<close>, and the result is \<open>[v]\<close>.
\<close>

fun new_Array_fill :: "nat option \<Rightarrow> 'a \<Rightarrow> 'a list" where
  "new_Array_fill (Some n) v = replicate n v"
| "new_Array_fill None v = [v]"

record data =
  data_x :: jsval
  data_y :: jsval

text \<open>
  The model function: \<open>fn_length\<close> is its declared arity (\<open>parameterizedFunction.length\<close>),
  \<open>fn_call\<close> applies it to a parameter vector and then to a sample.
\<close>

record paramFunction =
  fn_length :: nat
  fn_call :: "num list \<Rightarrow> num \<Rightarrow> num"

text \<open>
  The options object. A field that is \<open>None\<close> (or \<open>JUndefined\<close>) is absent and takes
  the default of the destructuring pattern.
\<close>

record options =
  opt_timeout :: jsval
  opt_minValues :: "num list option"
  opt_maxValues :: "num list option"
  opt_initialValues :: jsval
  opt_weights :: jsval
  opt_damping :: "num option"
  opt_dampingStepUp :: "num option"
  opt_dampingStepDown :: "num option"
  opt_maxIterations :: "num option"
  opt_errorTolerance :: "num option"
  opt_centralDifference :: "bool option"
  opt_gradientDifference :: jsval
  opt_improvementThreshold :: "num option"

datatype lm_error =
    DampingNotPositive
  | DataWithoutXY
  | DataTooShort
  | DataSizeMismatch
  | BoundsSizeMismatch
  | InitialValuesNotArray
  | BadGradientDifference
  | BadWeights
  | BadTimeout
  | TimeoutExpired
  | InverseFailed

text \<open>The errors that \<open>checkOptions\<close> throws.\<close>

fun inputError :: "lm_error \<Rightarrow> bool" where
  "inputError TimeoutExpired = False"
| "inputError InverseFailed = False"
| "inputError _ = True"

definition orDefault :: "'a option \<Rightarrow> 'a \<Rightarrow> 'a" where
  "orDefault v d = (case v of None \<Rightarrow> d | Some a \<Rightarrow> a)"

definition jsDefault :: "jsval \<Rightarrow> jsval \<Rightarrow> jsval" where
  "jsDefault v d = (if v = JUndefined then d else v)"

definition MAX_SAFE_INTEGER :: num where
  "MAX_SAFE_INTEGER = Fin 9007199254740991"

definition MIN_SAFE_INTEGER :: num where
  "MIN_SAFE_INTEGER = Fin (- 9007199254740991)"

text \<open>
  What \<open>checkOptions\<close> returns. \<open>checkTimeout\<close> takes the reading of \<open>Date.now()\<close> at
  the moment it is called.
\<close>

record resolved =
  checkTimeout :: "num \<Rightarrow> bool"
  minValues :: "num list"
  maxValues :: "num list"
  parameters :: "num list"
  weightSquare :: "num list"
  damping :: num
  dampingStepUp :: num
  dampingStepDown :: num
  maxIterations :: num
  errorTolerance :: num
  centralDifference :: bool
  gradientDifference :: "num list"
  improvementThreshold :: num

text \<open>Lines 60 to 70: the normalisation of \<open>gradientDifference\<close>.\<close>

definition resolveGradientDifference :: "jsval \<Rightarrow> nat option \<Rightarrow> lm_error + num list" where
  "resolveGradientDifference gd parLen =
     (case gd of
        JNumber v \<Rightarrow> Inr (new_Array_fill parLen v)
      | JArray g \<Rightarrow>
          if Some (length g) \<noteq> parLen then Inr (new_Array_fill parLen (elemAt g 0)) else Inr g
      | _ \<Rightarrow> Inl BadGradientDifference)"

text \<open>Lines 72 to 87: the function \<open>filler\<close> that gives each sample its squared weight.\<close>

definition resolveFiller :: "jsval \<Rightarrow> nat \<Rightarrow> lm_error + (nat \<Rightarrow> num)" where
  "resolveFiller w xlen =
     (case w of
        JNumber v \<Rightarrow> Inr (\<lambda>i. ndiv (Fin 1) (pow2 v))
      | JArray ws \<Rightarrow>
          if length ws < xlen then Inr (\<lambda>i. ndiv (Fin 1) (pow2 (elemAt ws 0)))
          else Inr (\<lambda>i. ndiv (Fin 1) (pow2 (elemAt ws i)))
      | _ \<Rightarrow> Inl BadWeights)"

text \<open>
  Lines 89 to 98. \<open>now\<close> is the reading of \<open>Date.now()\<close> at validation time; it is read
  only when a timeout is given.
\<close>

definition resolveTimeout :: "jsval \<Rightarrow> num \<Rightarrow> lm_error + (num \<Rightarrow> bool)" where
  "resolveTimeout t now =
     (case t of
        JUndefined \<Rightarrow> Inr (\<lambda>reading. False)
      | JNumber v \<Rightarrow>
          (let endTime = nadd now (nmul v (Fin 1000)) in Inr (\<lambda>reading. ngt reading endTime))
      | _ \<Rightarrow> Inl BadTimeout)"

definition checkOptions :: "data \<Rightarrow> paramFunction \<Rightarrow> options \<Rightarrow> num \<Rightarrow> lm_error + resolved" where
  "checkOptions d parameterizedFunction opts now =
    (let weights = jsDefault (opt_weights opts) (JNumber (Fin 1));
         damping0 = orDefault (opt_damping opts) (Fin (1 / 100));
         gradientDifference0 = jsDefault (opt_gradientDifference opts) (JNumber (Fin (1 / 10)))
     in
     if nle damping0 (Fin 0) then Inl DampingNotPositive
     else if \<not> truthy (data_x d) \<or> \<not> truthy (data_y d) then Inl DataWithoutXY
     else if \<not> isArray (data_x d) \<or> length (elements (data_x d)) < 2 \<or>
             \<not> isArray (data_y d) \<or> length (elements (data_y d)) < 2
       then Inl DataTooShort
     else if length (elements (data_x d)) \<noteq> length (elements (data_y d))
       then Inl DataSizeMismatch
     else
       let params = (if truthy (opt_initialValues opts) then opt_initialValues opts
                     else JArray (replicate (fn_length parameterizedFunction) (Fin 1)));
           nbPoints = length (elements (data_y d));
           parLen = js_length params;
           maxV = orDefault (opt_maxValues opts) (new_Array_fill parLen MAX_SAFE_INTEGER);
           minV = orDefault (opt_minValues opts) (new_Array_fill parLen MIN_SAFE_INTEGER)
       in
       if length maxV \<noteq> length minV then Inl BoundsSizeMismatch
       else if \<not> isArray params then Inl InitialValuesNotArray
       else
         case resolveGradientDifference gradientDifference0 parLen of
           Inl e \<Rightarrow> Inl e
         | Inr gd \<Rightarrow>
             (case resolveFiller weights (length (elements (data_x d))) of
                Inl e \<Rightarrow> Inl e
              | Inr filler \<Rightarrow>
                  (case resolveTimeout (opt_timeout opts) now of
                     Inl e \<Rightarrow> Inl e
                   | Inr check \<Rightarrow>
                       Inr \<lparr> checkTimeout = check,
                             minValues = minV,
                             maxValues = maxV,
                             parameters = elements params,
                             weightSquare = map filler [0..<nbPoints],
                             damping = damping0,
                             dampingStepUp = orDefault (opt_dampingStepUp opts) (Fin 11),
                             dampingStepDown = orDefault (opt_dampingStepDown opts) (Fin 9),
                             maxIterations = orDefault (opt_maxIterations opts) (Fin 100),
                             errorTolerance = orDefault (opt_errorTolerance opts) (Fin (1 / 10000000)),
                             centralDifference = orDefault (opt_centralDifference opts) False,
                             gradientDifference = gd,
                             improvementThreshold =
                               orDefault (opt_improvementThreshold opts) (Fin (1 / 1000)) \<rparr>)))"

section \<open>Matrices\<close>

text \<open>
  The dense matrices of the library \<open>ml-matrix\<close>, with the operations the program calls.
  \<open>add\<close>, \<open>mulS\<close> and \<open>scale\<close> update their receiver in place and return it; the
  program never reads a receiver again after such a call (in the improvement metric the
  receiver \<open>perturbations.transpose()\<close> is evaluated before the argument that overwrites
  \<open>perturbations\<close>), so the operations are modelled as functions. \<open>scale('row', {scale: s})\<close>
  divides row \<open>i\<close> by \<open>s[i]\<close>. \<open>mmul\<close> accumulates each entry from \<open>0\<close>, left to right.
  The library's \<open>get\<close> throws on a row that does not exist; the program reads only
  rows below the number of parameters, which exist when \<open>mlMatrix.inverse\<close> returns a
  matrix of the dimension of its argument. \<open>mget\<close> reads \<open>NaN\<close> out of range.
\<close>

record matrix =
  rows :: nat
  columns :: nat
  mdata :: "num list list"

definition tabulate :: "nat \<Rightarrow> nat \<Rightarrow> (nat \<Rightarrow> nat \<Rightarrow> num) \<Rightarrow> matrix" where
  "tabulate r c f = \<lparr> rows = r, columns = c, mdata = map (\<lambda>i. map (f i) [0..<c]) [0..<r] \<rparr>"

definition zeros :: "nat \<Rightarrow> nat \<Rightarrow> matrix" where
  "zeros r c = \<lparr> rows = r, columns = c, mdata = replicate r (replicate c (Fin 0)) \<rparr>"

definition eye :: "nat \<Rightarrow> nat \<Rightarrow> num \<Rightarrow> matrix" where
  "eye r c v = tabulate r c (\<lambda>i j. if i = j then v else Fin 0)"

definition mget :: "matrix \<Rightarrow> nat \<Rightarrow> nat \<Rightarrow> num" where
  "mget m i j = (if i < length (mdata m) then elemAt (mdata m ! i) j else NaN)"

definition mset :: "matrix \<Rightarrow> nat \<Rightarrow> nat \<Rightarrow> num \<Rightarrow> matrix" where
  "mset m i j v = m\<lparr> mdata := (mdata m)[i := (mdata m ! i)[j := v]] \<rparr>"

definition transposeM :: "matrix \<Rightarrow> matrix" where
  "transposeM m = tabulate (columns m) (rows m) (\<lambda>i j. mget m j i)"

definition scaleRow :: "matrix \<Rightarrow> num list \<Rightarrow> matrix" where
  "scaleRow m s = tabulate (rows m) (columns m) (\<lambda>i j. ndiv (mget m i j) (elemAt s i))"

definition mmul :: "matrix \<Rightarrow> matrix \<Rightarrow> matrix" where
  "mmul a b =
     tabulate (rows a) (columns b)
       (\<lambda>i j. foldl (\<lambda>s k. nadd s (nmul (mget a i k) (mget b k j))) (Fin 0) [0..<columns a])"

definition addM :: "matrix \<Rightarrow> matrix \<Rightarrow> matrix" where
  "addM a b = tabulate (rows a) (columns a) (\<lambda>i j. nadd (mget a i j) (mget b i j))"

definition mulS :: "matrix \<Rightarrow> num \<Rightarrow> matrix" where
  "mulS a v = tabulate (rows a) (columns a) (\<lambda>i j. nmul (mget a i j) v)"

section \<open>The error, the Jacobian and the step\<close>

definition errorCalculation :: "data \<Rightarrow> num list \<Rightarrow> paramFunction \<Rightarrow> num list \<Rightarrow> num" where
  "errorCalculation d params parameterizedFunction wSquare =
     (let func = fn_call parameterizedFunction params in
      foldl (\<lambda>err i.
               nadd err (ndiv (pow2 (nsub (elemAt (elements (data_y d)) i)
                                          (func (elemAt (elements (data_x d)) i))))
                              (elemAt wSquare i)))
        (Fin 0) [0..<length (elements (data_x d))])"

text \<open>The inner loops of \<open>gradientFunction\<close>: row \<open>rowIndex\<close> is written point by point.\<close>

definition setRow :: "matrix \<Rightarrow> nat \<Rightarrow> nat \<Rightarrow> (nat \<Rightarrow> num) \<Rightarrow> matrix" where
  "setRow ans rowIndex nbPoints f =
     foldl (\<lambda>a point. mset a rowIndex point (f point)) ans [0..<nbPoints]"

text \<open>
  One pass of the loop over \<open>param\<close> in \<open>gradientFunction\<close> (lines 173 to 199), on the
  pair of \<open>ans\<close> and \<open>rowIndex\<close>.
\<close>

definition gradientBody ::
  "data \<Rightarrow> num list \<Rightarrow> num list \<Rightarrow> num list \<Rightarrow> paramFunction \<Rightarrow> bool \<Rightarrow>
   nat \<Rightarrow> matrix \<times> nat \<Rightarrow> matrix \<times> nat" where
  "gradientBody d evaluatedData params gradDiff paramFunction central param st =
     (let ans = fst st; rowIndex = snd st; nbPoints = length (elements (data_x d)) in
      if elemAt gradDiff param = Fin 0 then (ans, rowIndex)
      else
        let delta = elemAt gradDiff param;
            auxParams = params[param := nadd (elemAt params param) delta];
            funcParam = fn_call paramFunction auxParams
        in
        if \<not> central then
          (setRow ans rowIndex nbPoints
             (\<lambda>point. ndiv (nsub (elemAt evaluatedData point)
                                  (funcParam (elemAt (elements (data_x d)) point))) delta),
           rowIndex + 1)
        else
          let auxParams2 = params[param := nsub (elemAt params param) delta];
              delta2 = nmul delta (Fin 2);
              funcParam2 = fn_call paramFunction auxParams2
          in
          (setRow ans rowIndex nbPoints
             (\<lambda>point. ndiv (nsub (funcParam2 (elemAt (elements (data_x d)) point))
                                  (funcParam (elemAt (elements (data_x d)) point))) delta2),
           rowIndex + 1))"

definition gradientFunction ::
  "data \<Rightarrow> num list \<Rightarrow> num list \<Rightarrow> num list \<Rightarrow> paramFunction \<Rightarrow> bool \<Rightarrow> matrix" where
  "gradientFunction d evaluatedData params gradDiff paramFunction central =
     (let nbParams = length params;
          nbPoints = length (elements (data_x d))
      in fst (fold (gradientBody d evaluatedData params gradDiff paramFunction central)
                [0..<nbParams] (zeros nbParams nbPoints, 0)))"

definition matrixFunction :: "data \<Rightarrow> num list \<Rightarrow> matrix" where
  "matrixFunction d evaluatedData =
     (let m = length (elements (data_x d)) in
      foldl (\<lambda>ans point.
               mset ans point 0 (nsub (elemAt (elements (data_y d)) point)
                                      (elemAt evaluatedData point)))
        (zeros m 1) [0..<m])"

record stepResult =
  perturbations :: matrix
  jacobianWeigthResidualError :: matrix

definition evaluate :: "data \<Rightarrow> num list \<Rightarrow> paramFunction \<Rightarrow> num list" where
  "evaluate d params parameterizedFunction =
     (let func = fn_call parameterizedFunction params in
      map (\<lambda>i. func (elemAt (elements (data_x d)) i)) [0..<length (elements (data_x d))])"

text \<open>The matrix that \<open>step\<close> hands to \<open>mlMatrix.inverse\<close> (lines 264 to 268).\<close>

definition dampedMatrix ::
  "data \<Rightarrow> num list \<Rightarrow> num \<Rightarrow> num list \<Rightarrow> paramFunction \<Rightarrow> bool \<Rightarrow> num list \<Rightarrow> matrix" where
  "dampedMatrix d params dampingValue gradDiff parameterizedFunction central weights =
     (let identity = eye (length params) (length params) dampingValue;
          evaluatedData = evaluate d params parameterizedFunction;
          gradientFunc = gradientFunction d evaluatedData params gradDiff parameterizedFunction central
      in addM identity (mmul gradientFunc (scaleRow (transposeM gradientFunc) weights)))"

text \<open>
  \<open>mlMatrix.inverse\<close> is not part of the program: it is the parameter \<open>mlInverse\<close>, and
  \<open>None\<close> stands for the library throwing (it decomposes the matrix and refuses a
  singular one).
\<close>

definition step ::
  "(matrix \<Rightarrow> matrix option) \<Rightarrow> data \<Rightarrow> num list \<Rightarrow> num \<Rightarrow> num list \<Rightarrow> paramFunction \<Rightarrow> bool \<Rightarrow>
   num list \<Rightarrow> lm_error + stepResult" where
  "step mlInverse d params dampingValue gradDiff parameterizedFunction central weights =
     (let evaluatedData = evaluate d params parameterizedFunction;
          gradientFunc = gradientFunction d evaluatedData params gradDiff parameterizedFunction central;
          residualError = matrixFunction d evaluatedData
      in
      case mlInverse (dampedMatrix d params dampingValue gradDiff parameterizedFunction central weights) of
        None \<Rightarrow> Inl InverseFailed
      | Some inverseMatrix \<Rightarrow>
          let jwre = mmul gradientFunc (scaleRow residualError weights)
          in Inr \<lparr> perturbations = mmul inverseMatrix jwre,
                   jacobianWeigthResidualError = jwre \<rparr>)"

section \<open>The optimisation loop\<close>

text \<open>The variables of \<open>levenbergMarquardt\<close>: the destructured result of \<open>checkOptions\<close>,
  then \<open>error\<close>, \<open>iteration\<close> and \<open>converged\<close>.\<close>

record lm_state = resolved +
  error :: num
  iteration :: nat
  converged :: bool

text \<open>
  Bookkeeping that the program does not have: how many times \<open>levenbergMarquardt\<close> has
  called \<open>errorCalculation\<close> and \<open>step\<close> (the only places where the model function is
  invoked) and \<open>checkTimeout\<close>, and the variables as they were at the start of each
  pass of the loop.
\<close>

record ghost =
  errorCalls :: nat
  stepCalls :: nat
  timeoutChecks :: nat
  visited :: "lm_state list"

record fitResult =
  parameterValues :: "num list"
  parameterError :: num
  iterations :: nat

datatype flow = Throw lm_error | Break lm_state | Continue lm_state

text \<open>Lines 348 to 353.\<close>

definition clampParameters :: "num list \<Rightarrow> num list \<Rightarrow> num list \<Rightarrow> matrix \<Rightarrow> num list" where
  "clampParameters minV maxV params perturbationsM =
     map (\<lambda>k. nmin (nmax (elemAt minV k) (nsub (elemAt params k) (mget perturbationsM k 0)))
                    (elemAt maxV k))
       [0..<length params]"

text \<open>Lines 364 to 369.\<close>

definition improvementMetric :: "num \<Rightarrow> num \<Rightarrow> matrix \<Rightarrow> num \<Rightarrow> matrix \<Rightarrow> num" where
  "improvementMetric previousError newError perturbationsM dampingValue jwre =
     ndiv (nsub previousError newError)
          (mget (mmul (transposeM perturbationsM) (addM (mulS perturbationsM dampingValue) jwre)) 0 0)"

text \<open>
  One pass of the loop (lines 336 to 384). \<open>clock k\<close> is the reading of the \<open>k\<close>-th call
  of \<open>Date.now()\<close> after the one of \<open>checkOptions\<close>.
\<close>

definition loopBody ::
  "(matrix \<Rightarrow> matrix option) \<Rightarrow> (nat \<Rightarrow> num) \<Rightarrow> data \<Rightarrow> paramFunction \<Rightarrow> lm_state \<Rightarrow> ghost \<Rightarrow>
   flow \<times> ghost" where
  "loopBody mlInverse clock d parameterizedFunction s g =
     (let previousError = error s;
          g1 = g\<lparr> stepCalls := stepCalls g + 1, visited := visited g @ [s] \<rparr>
      in
      case step mlInverse d (parameters s) (damping s) (gradientDifference s)
             parameterizedFunction (centralDifference s) (weightSquare s) of
        Inl e \<Rightarrow> (Throw e, g1)
      | Inr r \<Rightarrow>
          let s1 = s\<lparr> parameters :=
                        clampParameters (minValues s) (maxValues s) (parameters s) (perturbations r) \<rparr>;
              s2 = s1\<lparr> error :=
                         errorCalculation d (parameters s1) parameterizedFunction (weightSquare s1) \<rparr>;
              g2 = g1\<lparr> errorCalls := errorCalls g1 + 1 \<rparr>
          in
          if isNaN (error s2) then (Break s2, g2)
          else
            let metric = improvementMetric previousError (error s2) (perturbations r) (damping s2)
                           (jacobianWeigthResidualError r);
                s3 = (if ngt metric (improvementThreshold s2)
                      then s2\<lparr> damping :=
                                 nmax (ndiv (damping s2) (dampingStepDown s2)) (Fin (1 / 10000000)) \<rparr>
                      else s2\<lparr> error := previousError,
                               damping := nmin (nmul (damping s2) (dampingStepUp s2)) (Fin 10000000) \<rparr>);
                g3 = g2\<lparr> timeoutChecks := timeoutChecks g2 + 1 \<rparr>
            in
            if checkTimeout s3 (clock (timeoutChecks g3)) then (Throw TimeoutExpired, g3)
            else (Continue (s3\<lparr> converged := nle (error s3) (errorTolerance s3) \<rparr>), g3))"

definition finish :: "lm_state \<Rightarrow> fitResult" where
  "finish s = \<lparr> parameterValues = parameters s, parameterError = error s,
                iterations = iteration s \<rparr>"

text \<open>
  The test of the \<open>for\<close> loop (line 335). \<open>iteration\<close> counts from \<open>0\<close> in steps of one;
  \<open>maxIterations\<close> is any number.
\<close>

definition running :: "lm_state \<Rightarrow> bool" where
  "running s = (nlt (Fin (real (iteration s))) (maxIterations s) \<and> \<not> converged s)"

text \<open>
  The loop. It need not end (\<open>maxIterations\<close> can be \<open>Infinity\<close>), so the model follows it
  for at most \<open>fuel\<close> passes: the first component of the result is \<open>None\<close> when the
  loop is still running after that many passes, and otherwise what the call returns
  (\<open>Inr\<close>) or throws (\<open>Inl\<close>). The bookkeeping is that of the passes made.
\<close>

fun loop ::
  "nat \<Rightarrow> (matrix \<Rightarrow> matrix option) \<Rightarrow> (nat \<Rightarrow> num) \<Rightarrow> data \<Rightarrow> paramFunction \<Rightarrow> lm_state \<Rightarrow> ghost \<Rightarrow>
   (lm_error + fitResult) option \<times> ghost" where
  "loop 0 mlInverse clock d parameterizedFunction s g =
     (if running s then (None, g) else (Some (Inr (finish s)), g))"
| "loop (Suc fuel) mlInverse clock d parameterizedFunction s g =
     (if running s then
        (case loopBody mlInverse clock d parameterizedFunction s g of
           (Throw e, g') \<Rightarrow> (Some (Inl e), g')
         | (Break s', g') \<Rightarrow> (Some (Inr (finish s')), g')
         | (Continue s', g') \<Rightarrow>
             loop fuel mlInverse clock d parameterizedFunction
               (s'\<lparr> iteration := iteration s' + 1 \<rparr>) g')
      else (Some (Inr (finish s)), g))"

declare loop.simps [simp del]

definition initialState :: "resolved \<Rightarrow> num \<Rightarrow> lm_state" where
  "initialState r error0 =
     \<lparr> checkTimeout = checkTimeout r,
       minValues = minValues r,
       maxValues = maxValues r,
       parameters = parameters r,
       weightSquare = weightSquare r,
       damping = damping r,
       dampingStepUp = dampingStepUp r,
       dampingStepDown = dampingStepDown r,
       maxIterations = maxIterations r,
       errorTolerance = errorTolerance r,
       centralDifference = centralDifference r,
       gradientDifference = gradientDifference r,
       improvementThreshold = improvementThreshold r,
       error = error0,
       iteration = 0,
       converged = nle error0 (errorTolerance r) \<rparr>"

definition noCalls :: ghost where
  "noCalls = \<lparr> errorCalls = 0, stepCalls = 0, timeoutChecks = 0, visited = [] \<rparr>"

text \<open>
  \<open>clock 0\<close> is the reading of \<open>Date.now()\<close> in \<open>checkOptions\<close>. The result pairs the
  outcome of the call, followed for at most \<open>fuel\<close> passes of the loop, with the
  bookkeeping.
\<close>

definition levenbergMarquardt ::
  "nat \<Rightarrow> (matrix \<Rightarrow> matrix option) \<Rightarrow> (nat \<Rightarrow> num) \<Rightarrow> data \<Rightarrow> paramFunction \<Rightarrow> options \<Rightarrow>
   (lm_error + fitResult) option \<times> ghost" where
  "levenbergMarquardt fuel mlInverse clock d parameterizedFunction opts =
     (case checkOptions d parameterizedFunction opts (clock 0) of
        Inl e \<Rightarrow> (Some (Inl e), noCalls)
      | Inr r \<Rightarrow>
          let error0 = errorCalculation d (parameters r) parameterizedFunction (weightSquare r)
          in loop fuel mlInverse clock d parameterizedFunction (initialState r error0)
               (noCalls\<lparr> errorCalls := 1 \<rparr>))"

section \<open>Notions used in the statements\<close>

text \<open>The interval in which the damping is meant to stay.\<close>

definition dampingBounded :: "num \<Rightarrow> bool" where
  "dampingBounded v = (nle (Fin (1 / 10000000)) v \<and> nle v (Fin 10000000))"


text \<open>
  The parameters whose \<open>gradientDifference\<close> is not \<open>0\<close>, in increasing order, and the
  row that one pass of the loop of \<open>gradientFunction\<close> writes for such a parameter
  (read off a one-row matrix).
\<close>

definition activeParameters :: "num list \<Rightarrow> nat \<Rightarrow> nat list" where
  "activeParameters gradDiff nbParams = filter (\<lambda>param. elemAt gradDiff param \<noteq> Fin 0) [0..<nbParams]"

definition differenceRow ::
  "data \<Rightarrow> num list \<Rightarrow> num list \<Rightarrow> num list \<Rightarrow> paramFunction \<Rightarrow> bool \<Rightarrow> nat \<Rightarrow> num list" where
  "differenceRow d evaluatedData params gradDiff paramFunction central param =
     mdata (fst (gradientBody d evaluatedData params gradDiff paramFunction central param
                   (zeros 1 (length (elements (data_x d))), 0))) ! 0"

text \<open>
  Finite numbers and their values, and matrices of a given shape whose entries are all
  finite.
\<close>

fun isFin :: "num \<Rightarrow> bool" where
  "isFin (Fin a) = True"
| "isFin _ = False"

fun valueOf :: "num \<Rightarrow> real" where
  "valueOf (Fin a) = a"
| "valueOf _ = 0"

definition finiteEntries :: "matrix \<Rightarrow> nat \<Rightarrow> nat \<Rightarrow> bool" where
  "finiteEntries m r c =
     (rows m = r \<and> columns m = c \<and> length (mdata m) = r \<and>
      list_all (\<lambda>row. length row = c \<and> list_all isFin row) (mdata m))"

text \<open>The denominator of the improvement metric (lines 366 to 369).\<close>

definition metricDenominator :: "matrix \<Rightarrow> num \<Rightarrow> matrix \<Rightarrow> num" where
  "metricDenominator perturbationsM dampingValue jwre =
     mget (mmul (transposeM perturbationsM) (addM (mulS perturbationsM dampingValue) jwre)) 0 0"

text \<open>
  \<open>exactStep\<close>: the result \<open>r\<close> of \<open>step\<close> solves the damped normal equations exactly.
  The Jacobian, the perturbations and the weighted product are finite and of the right
  shape, the damping is finite and not negative, the squared weights of the samples are
  finite and positive, and the matrix handed to \<open>mlMatrix.inverse\<close>, multiplied by the
  perturbations, gives the weighted product of the Jacobian and the residuals.
\<close>

definition exactStep ::
  "data \<Rightarrow> num list \<Rightarrow> num \<Rightarrow> num list \<Rightarrow> paramFunction \<Rightarrow> bool \<Rightarrow> num list \<Rightarrow> stepResult \<Rightarrow> bool" where
  "exactStep d params dampingValue gradDiff parameterizedFunction central weights r =
     (let n = length params;
          m = length (elements (data_x d));
          jac = gradientFunction d (evaluate d params parameterizedFunction) params gradDiff
                  parameterizedFunction central
      in finiteEntries jac n m \<and>
         finiteEntries (perturbations r) n 1 \<and>
         finiteEntries (jacobianWeigthResidualError r) n 1 \<and>
         isFin dampingValue \<and> nle (Fin 0) dampingValue \<and>
         list_all (\<lambda>i. isFin (elemAt weights i) \<and> nlt (Fin 0) (elemAt weights i)) [0..<m] \<and>
         mmul (dampedMatrix d params dampingValue gradDiff parameterizedFunction central weights)
           (perturbations r) = jacobianWeigthResidualError r)"

text \<open>
  The number of passes that \<open>maxIterations\<close> allows: the least whole number that is not
  below it, no pass when it is \<open>NaN\<close> or \<open>-Infinity\<close>, and no bound (\<open>None\<close>) when it is
  \<open>Infinity\<close>.
\<close>

definition passBudget :: "num \<Rightarrow> nat option" where
  "passBudget v = (case v of Fin a \<Rightarrow> Some (nat \<lceil>a\<rceil>) | PInf \<Rightarrow> None | _ \<Rightarrow> Some 0)"

text \<open>
  The parameters that the fit starts from (line 45): the \<open>initialValues\<close> when they are
  given, and otherwise a \<open>1\<close> for each declared argument of the model function.
\<close>

definition startParameters :: "paramFunction \<Rightarrow> options \<Rightarrow> num list" where
  "startParameters parameterizedFunction opts =
     (if truthy (opt_initialValues opts) then elements (opt_initialValues opts)
      else replicate (fn_length parameterizedFunction) (Fin 1))"

section \<open>Example inputs\<close>

text \<open>
  Concrete inputs for the closed theorems below. The empty options object, the inverse
  of a one by one matrix and a one by one matrix.
\<close>

definition noOptions :: options where
  "noOptions = \<lparr> opt_timeout = JUndefined, opt_minValues = None, opt_maxValues = None,
     opt_initialValues = JUndefined, opt_weights = JUndefined, opt_damping = None,
     opt_dampingStepUp = None, opt_dampingStepDown = None, opt_maxIterations = None,
     opt_errorTolerance = None, opt_centralDifference = None, opt_gradientDifference = JUndefined,
     opt_improvementThreshold = None \<rparr>"

definition inverse1 :: "matrix \<Rightarrow> matrix option" where
  "inverse1 m = Some (tabulate 1 1 (\<lambda>i j. ndiv (Fin 1) (mget m 0 0)))"

definition single :: "num \<Rightarrow> matrix" where
  "single v = \<lparr> rows = 1, columns = 1, mdata = [[v]] \<rparr>"

text \<open>
  The model \<open>(p) => (x) => p[0] * x\<close>, two samples of the line \<open>y = 2 x\<close>, and the
  variables at the start of the loop for them and the default options.
\<close>

definition line :: paramFunction where
  "line = \<lparr> fn_length = 1, fn_call = (\<lambda>p x. nmul (elemAt p 0) x) \<rparr>"

definition points :: data where
  "points = \<lparr> data_x = JArray [Fin 1, Fin 2], data_y = JArray [Fin 2, Fin 4] \<rparr>"

definition exampleState :: lm_state where
  "exampleState =
     \<lparr> checkTimeout = (\<lambda>reading. False),
       minValues = [MIN_SAFE_INTEGER],
       maxValues = [MAX_SAFE_INTEGER],
       parameters = [Fin 1],
       weightSquare = [Fin 1, Fin 1],
       damping = Fin (1 / 100),
       dampingStepUp = Fin 11,
       dampingStepDown = Fin 9,
       maxIterations = Fin 100,
       errorTolerance = Fin (1 / 10000000),
       centralDifference = False,
       gradientDifference = [Fin (1 / 10)],
       improvementThreshold = Fin (1 / 1000),
       error = Fin 5,
       iteration = 0,
       converged = False \<rparr>"

text \<open>
  The models \<open>(p) => (x) => x / p[0]\<close>, \<open>(p) => (x) => p[0] / x\<close> and
  \<open>(p) => (x) => p[0] + p[1] * x\<close>, and two samples of which the first is at \<open>x = 0\<close>.
\<close>

definition ratio :: paramFunction where
  "ratio = \<lparr> fn_length = 1, fn_call = (\<lambda>p x. ndiv x (elemAt p 0)) \<rparr>"

definition inverseLaw :: paramFunction where
  "inverseLaw = \<lparr> fn_length = 1, fn_call = (\<lambda>p x. ndiv (elemAt p 0) x) \<rparr>"

definition affine :: paramFunction where
  "affine = \<lparr> fn_length = 1, fn_call = (\<lambda>p x. nadd (elemAt p 0) (nmul (elemAt p 1) x)) \<rparr>"

definition pointsFromZero :: data where
  "pointsFromZero = \<lparr> data_x = JArray [Fin 0, Fin 1], data_y = JArray [Fin 1, Fin 2] \<rparr>"

text \<open>
  Options and variables with both bounds of the single parameter at \<open>0\<close>, also with one
  pass only or with the initial value at \<open>0\<close>; and with both bounds at \<open>1\<close>.
\<close>

definition pinnedOptions :: options where
  "pinnedOptions = noOptions\<lparr> opt_minValues := Some [Fin 0], opt_maxValues := Some [Fin 0] \<rparr>"

definition pinnedState :: lm_state where
  "pinnedState = exampleState\<lparr> minValues := [Fin 0], maxValues := [Fin 0] \<rparr>"

definition onePass :: options where
  "onePass = pinnedOptions\<lparr> opt_maxIterations := Some (Fin 1) \<rparr>"



text \<open>
  Options and variables with both bounds at \<open>4\<close>, a negative \<open>improvementThreshold\<close> and
  one pass.
\<close>

definition risingOptions :: options where
  "risingOptions = noOptions\<lparr> opt_minValues := Some [Fin 4], opt_maxValues := Some [Fin 4],
     opt_improvementThreshold := Some (Fin (- 4)), opt_maxIterations := Some (Fin 1) \<rparr>"

definition risingState :: lm_state where
  "risingState = exampleState\<lparr> minValues := [Fin 4], maxValues := [Fin 4],
     improvementThreshold := Fin (- 4), maxIterations := Fin 1 \<rparr>"

text \<open>Options with three initial values.\<close>

definition threeValues :: options where
  "threeValues = noOptions\<lparr> opt_initialValues := JArray [Fin 1, Fin 2, Fin 3] \<rparr>"



text \<open>
  The inverse of a two by two matrix (none when the determinant is \<open>0\<close>), a column of
  two entries, and options and variables for the model \<open>p[0] + p[1] * x\<close> with the
  initial values \<open>[1, 1]\<close>, the steps \<open>[0, 1]\<close> and one pass.
\<close>

definition inverse2 :: "matrix \<Rightarrow> matrix option" where
  "inverse2 m =
     (let a = mget m 0 0; b = mget m 0 1; c = mget m 1 0; e = mget m 1 1;
          det = nsub (nmul a e) (nmul b c)
      in if det = Fin 0 then None
         else Some \<lparr> rows = 2, columns = 2,
                     mdata = [[ndiv e det, ndiv (nneg b) det], [ndiv (nneg c) det, ndiv a det]] \<rparr>)"

definition column2 :: "num \<Rightarrow> num \<Rightarrow> matrix" where
  "column2 v w = \<lparr> rows = 2, columns = 1, mdata = [[v], [w]] \<rparr>"

definition heldOptions :: options where
  "heldOptions = noOptions\<lparr> opt_initialValues := JArray [Fin 1, Fin 1],
     opt_gradientDifference := JArray [Fin 0, Fin 1], opt_maxIterations := Some (Fin 1) \<rparr>"

definition heldState :: lm_state where
  "heldState = exampleState\<lparr> minValues := [MIN_SAFE_INTEGER, MIN_SAFE_INTEGER],
     maxValues := [MAX_SAFE_INTEGER, MAX_SAFE_INTEGER], parameters := [Fin 1, Fin 1],
     gradientDifference := [Fin 0, Fin 1], maxIterations := Fin 1, error := Fin 1 \<rparr>"

text \<open>
  Options and variables with both bounds at \<open>4\<close>, \<open>dampingStepUp = -1000\<close> and two
  passes.
\<close>

definition negativeStepUp :: options where
  "negativeStepUp = noOptions\<lparr> opt_minValues := Some [Fin 4], opt_maxValues := Some [Fin 4],
     opt_dampingStepUp := Some (Fin (- 1000)), opt_maxIterations := Some (Fin 2) \<rparr>"

definition negativeStepUpState :: lm_state where
  "negativeStepUpState = exampleState\<lparr> minValues := [Fin 4], maxValues := [Fin 4],
     dampingStepUp := Fin (- 1000), maxIterations := Fin 2 \<rparr>"

section \<open>The loop, pass by pass\<close>

lemma loopBody_visited:
  "loopBody mlInverse clock d parameterizedFunction s g = (f, g') \<Longrightarrow>
   visited g' = visited g @ [s]"
  by (auto simp: loopBody_def Let_def split: sum.splits if_splits)

lemma loopBody_frame:
  assumes "loopBody mlInverse clock d parameterizedFunction s g = (Continue s', g')"
  shows "minValues s' = minValues s" "maxValues s' = maxValues s"
    "weightSquare s' = weightSquare s" "dampingStepUp s' = dampingStepUp s"
    "dampingStepDown s' = dampingStepDown s" "maxIterations s' = maxIterations s"
    "errorTolerance s' = errorTolerance s" "centralDifference s' = centralDifference s"
    "gradientDifference s' = gradientDifference s"
    "improvementThreshold s' = improvementThreshold s" "checkTimeout s' = checkTimeout s"
    "iteration s' = iteration s"
  using assms by (auto simp: loopBody_def Let_def split: sum.splits if_splits)

lemma loopBody_damping:
  assumes "loopBody mlInverse clock d parameterizedFunction s g = (Continue s', g')"
  shows "damping s' = nmax (ndiv (damping s) (dampingStepDown s)) (Fin (1 / 10000000)) \<or>
         damping s' = nmin (nmul (damping s) (dampingStepUp s)) (Fin 10000000)"
  using assms by (auto simp: loopBody_def Let_def split: sum.splits if_splits)


lemma loop_stop:
  assumes "\<not> running s"
  shows "loop fuel mlInverse clock d parameterizedFunction s g = (Some (Inr (finish s)), g)"
  using assms by (cases fuel) (simp_all add: loop.simps)

lemma loop_pause:
  assumes "running s"
  shows "loop 0 mlInverse clock d parameterizedFunction s g = (None, g)"
  using assms by (simp add: loop.simps)

lemma loop_go:
  assumes "running s"
  shows "loop (Suc fuel) mlInverse clock d parameterizedFunction s g =
         (case loopBody mlInverse clock d parameterizedFunction s g of
            (Throw e, g') \<Rightarrow> (Some (Inl e), g')
          | (Break s', g') \<Rightarrow> (Some (Inr (finish s')), g')
          | (Continue s', g') \<Rightarrow>
              loop fuel mlInverse clock d parameterizedFunction
                (s'\<lparr> iteration := iteration s' + 1 \<rparr>) g')"
  using assms by (simp add: loop.simps)

text \<open>More fuel does not change a call that has returned.\<close>

lemma loop_more_fuel:
  "fst (loop fuel mlInverse clock d parameterizedFunction s g) \<noteq> None \<Longrightarrow>
   loop (fuel + k) mlInverse clock d parameterizedFunction s g =
   loop fuel mlInverse clock d parameterizedFunction s g"
proof (induction fuel arbitrary: s g)
  case 0
  then have "\<not> running s" by (auto simp: loop.simps split: if_splits)
  then show ?case by (simp add: loop_stop)
next
  case (Suc fuel)
  show ?case
  proof (cases "running s")
    case False
    then show ?thesis by (simp add: loop_stop)
  next
    case True
    obtain f g' where b: "loopBody mlInverse clock d parameterizedFunction s g = (f, g')"
      by (cases "loopBody mlInverse clock d parameterizedFunction s g")
    show ?thesis
    proof (cases f)
      case (Continue s')
      with Suc.prems b True
      have "fst (loop fuel mlInverse clock d parameterizedFunction
                   (s'\<lparr> iteration := iteration s' + 1 \<rparr>) g') \<noteq> None"
        by (simp add: loop_go)
      from Suc.IH [OF this] b Continue True show ?thesis
        by (simp add: loop_go)
    qed (use b True in \<open>simp_all add: loop_go\<close>)
  qed
qed

text \<open>A property of the variables that every pass keeps holds at the start of every pass.\<close>

lemma visited_loop_invariant:
  "(\<And>s g s' g'. P s \<Longrightarrow>
      loopBody mlInverse clock d parameterizedFunction s g = (Continue s', g') \<Longrightarrow>
      P (s'\<lparr> iteration := iteration s' + 1 \<rparr>)) \<Longrightarrow>
   P s \<Longrightarrow> \<forall>t\<in>set (visited g). P t \<Longrightarrow>
   \<forall>t\<in>set (visited (snd (loop fuel mlInverse clock d parameterizedFunction s g))). P t"
proof (induction fuel arbitrary: s g)
  case 0
  then show ?case by (cases "running s") (simp_all add: loop_stop loop_pause)
next
  case (Suc fuel)
  note inv = Suc.prems(1)
  show ?case
  proof (cases "running s")
    case False
    with Suc.prems(3) show ?thesis by (simp add: loop_stop)
  next
    case True
    obtain f g' where b: "loopBody mlInverse clock d parameterizedFunction s g = (f, g')"
      by (cases "loopBody mlInverse clock d parameterizedFunction s g")
    have v: "visited g' = visited g @ [s]" by (rule loopBody_visited [OF b])
    with Suc.prems(2,3) have all: "\<forall>t\<in>set (visited g'). P t" by simp
    show ?thesis
    proof (cases f)
      case (Throw e)
      with b all show ?thesis by (simp add: loop_go [OF True])
    next
      case (Break s')
      with b all show ?thesis by (simp add: loop_go [OF True])
    next
      case (Continue s')
      from b Continue have c: "loopBody mlInverse clock d parameterizedFunction s g = (Continue s', g')"
        by simp
      have p: "P (s'\<lparr> iteration := iteration s' + 1 \<rparr>)"
        by (rule inv [OF Suc.prems(2) c])
      from Suc.IH [OF inv p all] b Continue
      show ?thesis by (simp add: loop_go [OF True])
    qed
  qed
qed

lemma visited_loop_prefix:
  "\<exists>rest. visited (snd (loop fuel mlInverse clock d parameterizedFunction s g)) = visited g @ rest"
proof (induction fuel arbitrary: s g)
  case 0
  then show ?case by (cases "running s") (simp_all add: loop_stop loop_pause)
next
  case (Suc fuel)
  show ?case
  proof (cases "running s")
    case False
    then show ?thesis by (simp add: loop_stop)
  next
    case True
    obtain f g' where b: "loopBody mlInverse clock d parameterizedFunction s g = (f, g')"
      by (cases "loopBody mlInverse clock d parameterizedFunction s g")
    have v: "visited g' = visited g @ [s]" by (rule loopBody_visited [OF b])
    show ?thesis
    proof (cases f)
      case (Continue s')
      from Suc.IH [of "s'\<lparr> iteration := iteration s' + 1 \<rparr>" g'] v b Continue
      show ?thesis by (auto simp add: loop_go [OF True])
    qed (use b v in \<open>simp_all add: loop_go [OF True]\<close>)
  qed
qed

lemma visited_loop_head:
  assumes "running s"
  shows "\<exists>rest. visited (snd (loop (Suc fuel) mlInverse clock d parameterizedFunction s g)) =
           visited g @ s # rest"
proof -
  obtain f g' where b: "loopBody mlInverse clock d parameterizedFunction s g = (f, g')"
    by (cases "loopBody mlInverse clock d parameterizedFunction s g")
  have v: "visited g' = visited g @ [s]" by (rule loopBody_visited [OF b])
  show ?thesis
  proof (cases f)
    case (Continue s')
    from visited_loop_prefix [of fuel mlInverse clock d parameterizedFunction
        "s'\<lparr> iteration := iteration s' + 1 \<rparr>" g'] v b Continue
    show ?thesis by (auto simp add: loop_go [OF assms])
  qed (use b v in \<open>simp_all add: loop_go [OF assms]\<close>)
qed


text \<open>
  The number of passes when \<open>maxIterations\<close> is not \<open>Infinity\<close>: a running loop has
  made fewer passes than \<open>passBudget\<close> allows, enough fuel lets the call return, and no
  more passes than that are made.
\<close>

lemma running_budget:
  assumes "running s" and "passBudget (maxIterations s) = Some b"
  shows "iteration s < b"
proof -
  from assms obtain a where a: "maxIterations s = Fin a" "b = nat \<lceil>a\<rceil>"
    and r: "real (iteration s) < a"
    by (cases "maxIterations s") (auto simp: running_def passBudget_def)
  from r have "real (iteration s) < real_of_int \<lceil>a\<rceil>"
    by (meson le_of_int_ceiling less_le_trans)
  then have "int (iteration s) < \<lceil>a\<rceil>" by linarith
  with a show ?thesis by linarith
qed

lemma loop_returns:
  "passBudget (maxIterations s) = Some b \<Longrightarrow> b - iteration s \<le> fuel \<Longrightarrow>
   fst (loop fuel mlInverse clock d parameterizedFunction s g) \<noteq> None"
proof (induction fuel arbitrary: s g)
  case 0
  with running_budget [of s b] have "\<not> running s" by auto
  then show ?case by (simp add: loop_stop)
next
  case (Suc fuel)
  show ?case
  proof (cases "running s")
    case False
    then show ?thesis by (simp add: loop_stop)
  next
    case True
    obtain f g' where b: "loopBody mlInverse clock d parameterizedFunction s g = (f, g')"
      by (cases "loopBody mlInverse clock d parameterizedFunction s g")
    show ?thesis
    proof (cases f)
      case (Continue s')
      from b Continue have c: "loopBody mlInverse clock d parameterizedFunction s g = (Continue s', g')"
        by simp
      have "passBudget (maxIterations (s'\<lparr> iteration := iteration s' + 1 \<rparr>)) = Some b"
        using Suc.prems(1) loopBody_frame(6) [OF c] by simp
      moreover have "b - iteration (s'\<lparr> iteration := iteration s' + 1 \<rparr>) \<le> fuel"
        using Suc.prems(2) loopBody_frame(12) [OF c] by simp
      ultimately have "fst (loop fuel mlInverse clock d parameterizedFunction
                   (s'\<lparr> iteration := iteration s' + 1 \<rparr>) g') \<noteq> None"
        by (rule Suc.IH)
      with b Continue show ?thesis by (simp add: loop_go [OF True])
    qed (use b in \<open>simp_all add: loop_go [OF True]\<close>)
  qed
qed



lemma levenbergMarquardt_returns:
  assumes "checkOptions d parameterizedFunction opts (clock 0) = Inr r"
    and "passBudget (maxIterations r) = Some b" and "b \<le> fuel"
  shows "fst (levenbergMarquardt fuel mlInverse clock d parameterizedFunction opts) \<noteq> None"
proof -
  let ?s0 = "initialState r (errorCalculation d (parameters r) parameterizedFunction (weightSquare r))"
  have "passBudget (maxIterations ?s0) = Some b" "b - iteration ?s0 \<le> fuel"
    using assms(2,3) by (simp_all add: initialState_def)
  from loop_returns [OF this, of mlInverse clock d parameterizedFunction "noCalls\<lparr> errorCalls := 1 \<rparr>"]
  show ?thesis using assms(1) by (simp add: levenbergMarquardt_def Let_def)
qed

section \<open>Validation\<close>

lemma checkOptions_input_error:
  "checkOptions d parameterizedFunction opts now = Inl e \<Longrightarrow> inputError e"
  by (auto simp: checkOptions_def Let_def resolveGradientDifference_def resolveFiller_def
        resolveTimeout_def split: if_splits sum.splits jsval.splits)

text \<open>
  C6. When the \<open>x\<close> and \<open>y\<close> sequences differ in length, or one of them has fewer than
  two elements, or the \<open>damping\<close> option is at most zero, the call throws one of the
  errors of \<open>checkOptions\<close>, and it has called neither \<open>errorCalculation\<close> nor
  \<open>step\<close>, the only places where the model function is invoked.
\<close>

theorem invalid_input_raises_before_model:
  assumes "(\<exists>v. opt_damping opts = Some v \<and> nle v (Fin 0)) \<or>
           (\<exists>xs ys. data_x d = JArray xs \<and> data_y d = JArray ys \<and>
              (length xs \<noteq> length ys \<or> length xs < 2 \<or> length ys < 2))"
  shows "\<exists>e. inputError e \<and>
           fst (levenbergMarquardt fuel mlInverse clock d parameterizedFunction opts) = Some (Inl e) \<and>
           errorCalls (snd (levenbergMarquardt fuel mlInverse clock d parameterizedFunction opts)) = 0 \<and>
           stepCalls (snd (levenbergMarquardt fuel mlInverse clock d parameterizedFunction opts)) = 0"
proof -
  from assms have "\<exists>e. checkOptions d parameterizedFunction opts (clock 0) = Inl e"
    by (auto simp: checkOptions_def Let_def orDefault_def)
  then obtain e where e: "checkOptions d parameterizedFunction opts (clock 0) = Inl e" ..
  then have "inputError e" by (rule checkOptions_input_error)
  with e show ?thesis by (simp add: levenbergMarquardt_def noCalls_def)
qed

theorem invalid_input_raises_before_model_witness:
  "\<exists>e. inputError e \<and>
     fst (levenbergMarquardt 100 inverse1 (\<lambda>k. Fin 0)
            \<lparr> data_x = JArray [Fin 1, Fin 2, Fin 3], data_y = JArray [Fin 2, Fin 4] \<rparr> line noOptions) =
       Some (Inl e) \<and>
     errorCalls (snd (levenbergMarquardt 100 inverse1 (\<lambda>k. Fin 0)
            \<lparr> data_x = JArray [Fin 1, Fin 2, Fin 3], data_y = JArray [Fin 2, Fin 4] \<rparr> line noOptions)) = 0 \<and>
     stepCalls (snd (levenbergMarquardt 100 inverse1 (\<lambda>k. Fin 0)
            \<lparr> data_x = JArray [Fin 1, Fin 2, Fin 3], data_y = JArray [Fin 2, Fin 4] \<rparr> line noOptions)) = 0"
  using invalid_input_raises_before_model
    [of noOptions "\<lparr> data_x = JArray [Fin 1, Fin 2, Fin 3], data_y = JArray [Fin 2, Fin 4] \<rparr>"
        100 inverse1 "\<lambda>k. Fin 0" line]
  by simp

lemma checkOptions_parameters:
  "checkOptions d parameterizedFunction opts now = Inr r \<Longrightarrow>
   parameters r = startParameters parameterizedFunction opts"
  by (auto simp: checkOptions_def Let_def startParameters_def split: if_splits sum.splits)

lemma checkOptions_gradientDifference:
  assumes "checkOptions d parameterizedFunction opts now = Inr r"
  shows "resolveGradientDifference (jsDefault (opt_gradientDifference opts) (JNumber (Fin (1 / 10))))
           (Some (length (startParameters parameterizedFunction opts))) = Inr (gradientDifference r)"
proof (cases "opt_initialValues opts")
  case (JArray xs)
  with assms show ?thesis
    by (auto simp: checkOptions_def Let_def startParameters_def split: if_splits sum.splits)
next
  case JUndefined
  with assms show ?thesis
    by (auto simp: checkOptions_def Let_def startParameters_def split: if_splits sum.splits)
next
  case (JNumber v)
  with assms show ?thesis
    by (auto simp: checkOptions_def Let_def startParameters_def split: if_splits sum.splits)
next
  case JObject
  with assms show ?thesis
    by (auto simp: checkOptions_def Let_def startParameters_def split: if_splits sum.splits)
qed

lemma checkOptions_other_gradientDifference:
  assumes "opt_gradientDifference opts = JObject"
  shows "\<exists>e. checkOptions d parameterizedFunction opts now = Inl e \<and> inputError e \<and>
           e \<noteq> BadWeights \<and> e \<noteq> BadTimeout"
  using assms
  by (auto simp: checkOptions_def Let_def jsDefault_def resolveGradientDifference_def)

lemma checkOptions_gradientDifference_error:
  assumes "opt_gradientDifference opts = JObject"
    and "checkOptions d parameterizedFunction (opts\<lparr> opt_gradientDifference := JNumber v \<rparr>) now = Inr r \<or>
         checkOptions d parameterizedFunction (opts\<lparr> opt_gradientDifference := JNumber v \<rparr>) now = Inl BadWeights \<or>
         checkOptions d parameterizedFunction (opts\<lparr> opt_gradientDifference := JNumber v \<rparr>) now = Inl BadTimeout"
  shows "checkOptions d parameterizedFunction opts now = Inl BadGradientDifference"
  using assms
  by (auto simp: checkOptions_def Let_def jsDefault_def resolveGradientDifference_def
        resolveFiller_def resolveTimeout_def split: if_splits sum.splits jsval.splits)

text \<open>
  C9. The number of parameters is the length of \<open>startParameters\<close>: of the
  \<open>initialValues\<close> when they are given, and otherwise the declared arity of the model
  function. A number given as \<open>gradientDifference\<close> is repeated once per parameter. An
  array whose length differs from the number of parameters is replaced by its first
  element \<open>gs[0]\<close>, repeated once per parameter; an array of that length is kept. With
  a value that is neither (and is not absent) \<open>checkOptions\<close> throws, whatever the
  other options are, and what it throws is the \<open>gradientDifference\<close> error whenever a
  number in its place would be accepted or would be followed by the error of the
  \<open>weights\<close> or of the \<open>timeout\<close>, which are checked later.
\<close>

theorem gradientDifference_normalisation:
  "(opt_gradientDifference opts = JNumber v \<and>
      checkOptions d parameterizedFunction opts now = Inr r \<longrightarrow>
        parameters r = startParameters parameterizedFunction opts \<and>
        gradientDifference r = replicate (length (startParameters parameterizedFunction opts)) v) \<and>
   (opt_gradientDifference opts = JArray gs \<and>
      length gs \<noteq> length (startParameters parameterizedFunction opts) \<and>
      checkOptions d parameterizedFunction opts now = Inr r \<longrightarrow>
        parameters r = startParameters parameterizedFunction opts \<and>
        gradientDifference r =
          replicate (length (startParameters parameterizedFunction opts)) (elemAt gs 0)) \<and>
   (opt_gradientDifference opts = JArray gs \<and>
      length gs = length (startParameters parameterizedFunction opts) \<and>
      checkOptions d parameterizedFunction opts now = Inr r \<longrightarrow>
        parameters r = startParameters parameterizedFunction opts \<and> gradientDifference r = gs) \<and>
   (opt_gradientDifference opts = JObject \<longrightarrow>
      (\<exists>e. checkOptions d parameterizedFunction opts now = Inl e \<and> inputError e)) \<and>
   (opt_gradientDifference opts = JObject \<and>
      (checkOptions d parameterizedFunction (opts\<lparr> opt_gradientDifference := JNumber v \<rparr>) now = Inr r' \<or>
       checkOptions d parameterizedFunction (opts\<lparr> opt_gradientDifference := JNumber v \<rparr>) now =
         Inl BadWeights \<or>
       checkOptions d parameterizedFunction (opts\<lparr> opt_gradientDifference := JNumber v \<rparr>) now =
         Inl BadTimeout)
      \<longrightarrow> checkOptions d parameterizedFunction opts now = Inl BadGradientDifference)"
proof (intro conjI impI)
  assume a: "opt_gradientDifference opts = JNumber v \<and>
      checkOptions d parameterizedFunction opts now = Inr r"
  with checkOptions_parameters [of d parameterizedFunction opts now r]
  show "parameters r = startParameters parameterizedFunction opts"
    by simp
  from a checkOptions_gradientDifference [of d parameterizedFunction opts now r]
  show "gradientDifference r = replicate (length (startParameters parameterizedFunction opts)) v"
    by (simp add: jsDefault_def resolveGradientDifference_def)
next
  assume a: "opt_gradientDifference opts = JArray gs \<and>
      length gs \<noteq> length (startParameters parameterizedFunction opts) \<and>
      checkOptions d parameterizedFunction opts now = Inr r"
  with checkOptions_parameters [of d parameterizedFunction opts now r]
  show "parameters r = startParameters parameterizedFunction opts"
    by simp
  from a checkOptions_gradientDifference [of d parameterizedFunction opts now r]
  show "gradientDifference r =
          replicate (length (startParameters parameterizedFunction opts)) (elemAt gs 0)"
    by (simp add: jsDefault_def resolveGradientDifference_def)
next
  assume a: "opt_gradientDifference opts = JArray gs \<and>
      length gs = length (startParameters parameterizedFunction opts) \<and>
      checkOptions d parameterizedFunction opts now = Inr r"
  with checkOptions_parameters [of d parameterizedFunction opts now r]
  show "parameters r = startParameters parameterizedFunction opts"
    by simp
  from a checkOptions_gradientDifference [of d parameterizedFunction opts now r]
  show "gradientDifference r = gs"
    by (simp add: jsDefault_def resolveGradientDifference_def)
next
  assume "opt_gradientDifference opts = JObject"
  from checkOptions_other_gradientDifference [OF this, of d parameterizedFunction now]
  show "\<exists>e. checkOptions d parameterizedFunction opts now = Inl e \<and> inputError e"
    by blast
next
  assume "opt_gradientDifference opts = JObject \<and>
      (checkOptions d parameterizedFunction (opts\<lparr> opt_gradientDifference := JNumber v \<rparr>) now = Inr r' \<or>
       checkOptions d parameterizedFunction (opts\<lparr> opt_gradientDifference := JNumber v \<rparr>) now =
         Inl BadWeights \<or>
       checkOptions d parameterizedFunction (opts\<lparr> opt_gradientDifference := JNumber v \<rparr>) now =
         Inl BadTimeout)"
  then show "checkOptions d parameterizedFunction opts now = Inl BadGradientDifference"
    using checkOptions_gradientDifference_error [of opts d parameterizedFunction v now r']
    by blast
qed

lemma checkOptions_threeValues:
  assumes "g = JNumber v \<or> g = JArray gs"
  shows "\<exists>r. checkOptions points line (threeValues\<lparr> opt_gradientDifference := g \<rparr>) (Fin 0) = Inr r"
  using assms
  by (auto simp add: checkOptions_def points_def line_def threeValues_def noOptions_def Let_def
        jsDefault_def orDefault_def nle_def resolveGradientDifference_def resolveFiller_def
        resolveTimeout_def)

theorem gradientDifference_normalisation_witness:
  "startParameters line threeValues = [Fin 1, Fin 2, Fin 3] \<and>
   (\<exists>r. checkOptions points line (threeValues\<lparr> opt_gradientDifference := JNumber (Fin 2) \<rparr>) (Fin 0) = Inr r \<and>
        parameters r = [Fin 1, Fin 2, Fin 3] \<and>
        gradientDifference r = [Fin 2, Fin 2, Fin 2]) \<and>
   (\<exists>r. checkOptions points line (threeValues\<lparr> opt_gradientDifference := JArray [Fin 3, Fin 4] \<rparr>) (Fin 0) = Inr r \<and>
        parameters r = [Fin 1, Fin 2, Fin 3] \<and>
        gradientDifference r = [Fin 3, Fin 3, Fin 3]) \<and>
   (\<exists>r. checkOptions points line
           (threeValues\<lparr> opt_gradientDifference := JArray [Fin 3, Fin 4, Fin 5] \<rparr>) (Fin 0) = Inr r \<and>
        parameters r = [Fin 1, Fin 2, Fin 3] \<and>
        gradientDifference r = [Fin 3, Fin 4, Fin 5]) \<and>
   checkOptions points line (threeValues\<lparr> opt_gradientDifference := JObject \<rparr>) (Fin 0) =
     Inl BadGradientDifference \<and>
   (\<exists>e. checkOptions points line
           (threeValues\<lparr> opt_gradientDifference := JObject, opt_damping := Some (Fin 0) \<rparr>) (Fin 0) = Inl e \<and>
        inputError e)"
proof -
  let ?n = "threeValues\<lparr> opt_gradientDifference := JNumber (Fin 2) \<rparr>"
  let ?a = "threeValues\<lparr> opt_gradientDifference := JArray [Fin 3, Fin 4] \<rparr>"
  let ?k = "threeValues\<lparr> opt_gradientDifference := JArray [Fin 3, Fin 4, Fin 5] \<rparr>"
  let ?o = "threeValues\<lparr> opt_gradientDifference := JObject \<rparr>"
  let ?z = "threeValues\<lparr> opt_gradientDifference := JObject, opt_damping := Some (Fin 0) \<rparr>"
  have s: "startParameters line threeValues = [Fin 1, Fin 2, Fin 3]"
    by (simp add: startParameters_def threeValues_def)
  have sp: "startParameters line (threeValues\<lparr> opt_gradientDifference := g \<rparr>) = [Fin 1, Fin 2, Fin 3]" for g
    by (simp add: startParameters_def threeValues_def)
  obtain r1 where r1: "checkOptions points line ?n (Fin 0) = Inr r1"
    using checkOptions_threeValues [of "JNumber (Fin 2)" "Fin 2"] by blast
  obtain r2 where r2: "checkOptions points line ?a (Fin 0) = Inr r2"
    using checkOptions_threeValues [of "JArray [Fin 3, Fin 4]" _ "[Fin 3, Fin 4]"] by blast
  obtain r3 where r3: "checkOptions points line ?k (Fin 0) = Inr r3"
    using checkOptions_threeValues [of "JArray [Fin 3, Fin 4, Fin 5]" _ "[Fin 3, Fin 4, Fin 5]"] by blast
  have o: "?o\<lparr> opt_gradientDifference := JNumber (Fin 2) \<rparr> = ?n"
    by simp
  from gradientDifference_normalisation [of ?n "Fin 2" points line "Fin 0" r1] r1
  have "parameters r1 = [Fin 1, Fin 2, Fin 3] \<and> gradientDifference r1 = [Fin 2, Fin 2, Fin 2]"
    by (simp add: sp numeral_3_eq_3)
  moreover
  from gradientDifference_normalisation [of ?a _ points line "Fin 0" r2 "[Fin 3, Fin 4]"] r2
  have "parameters r2 = [Fin 1, Fin 2, Fin 3] \<and> gradientDifference r2 = [Fin 3, Fin 3, Fin 3]"
    by (simp add: sp elemAt_def numeral_3_eq_3)
  moreover
  from gradientDifference_normalisation [of ?k _ points line "Fin 0" r3 "[Fin 3, Fin 4, Fin 5]"] r3
  have "parameters r3 = [Fin 1, Fin 2, Fin 3] \<and> gradientDifference r3 = [Fin 3, Fin 4, Fin 5]"
    by (simp add: sp)
  moreover
  from gradientDifference_normalisation [of ?o "Fin 2" points line "Fin 0" _ _ r1] r1 o
  have "checkOptions points line ?o (Fin 0) = Inl BadGradientDifference" by simp
  moreover
  from gradientDifference_normalisation [of ?z _ points line "Fin 0"]
  have "\<exists>e. checkOptions points line ?z (Fin 0) = Inl e \<and> inputError e" by simp
  ultimately show ?thesis using s r1 r2 r3 by simp
qed

text \<open>
  C10. When the error at the resolved initial parameters is already at most
  \<open>errorTolerance\<close>, the call returns these parameters, that error and \<open>iterations = 0\<close>,
  after one call of \<open>errorCalculation\<close>, no call of \<open>step\<close> and no call of
  \<open>checkTimeout\<close>.
\<close>

theorem immediate_convergence:
  assumes "checkOptions d parameterizedFunction opts (clock 0) = Inr r"
    and "nle (errorCalculation d (parameters r) parameterizedFunction (weightSquare r))
             (errorTolerance r)"
  shows "fst (levenbergMarquardt fuel mlInverse clock d parameterizedFunction opts) =
           Some (Inr \<lparr> parameterValues = parameters r,
                 parameterError = errorCalculation d (parameters r) parameterizedFunction (weightSquare r),
                 iterations = 0 \<rparr>) \<and>
         stepCalls (snd (levenbergMarquardt fuel mlInverse clock d parameterizedFunction opts)) = 0 \<and>
         timeoutChecks (snd (levenbergMarquardt fuel mlInverse clock d parameterizedFunction opts)) = 0 \<and>
         errorCalls (snd (levenbergMarquardt fuel mlInverse clock d parameterizedFunction opts)) = 1 \<and>
         parameters r = (if truthy (opt_initialValues opts) then elements (opt_initialValues opts)
                         else replicate (fn_length parameterizedFunction) (Fin 1))"
proof -
  have p: "parameters r = (if truthy (opt_initialValues opts) then elements (opt_initialValues opts)
                         else replicate (fn_length parameterizedFunction) (Fin 1))"
    using assms(1)
    by (auto simp: checkOptions_def Let_def split: if_splits sum.splits)
  let ?e = "errorCalculation d (parameters r) parameterizedFunction (weightSquare r)"
  from assms(2) have "\<not> running (initialState r ?e)"
    by (simp add: running_def initialState_def)
  with assms(1)
  have run: "levenbergMarquardt fuel mlInverse clock d parameterizedFunction opts =
          (Some (Inr (finish (initialState r ?e))), noCalls\<lparr> errorCalls := 1 \<rparr>)"
    by (simp add: levenbergMarquardt_def Let_def loop_stop)
  show ?thesis
    unfolding run using p by (simp add: initialState_def finish_def noCalls_def)
qed

theorem immediate_convergence_witness:
  "fst (levenbergMarquardt 100 inverse1 (\<lambda>k. Fin 0) points line
          (noOptions\<lparr> opt_initialValues := JArray [Fin 2] \<rparr>)) =
     Some (Inr \<lparr> parameterValues = [Fin 2], parameterError = Fin 0, iterations = 0 \<rparr>) \<and>
   stepCalls (snd (levenbergMarquardt 100 inverse1 (\<lambda>k. Fin 0) points line
          (noOptions\<lparr> opt_initialValues := JArray [Fin 2] \<rparr>))) = 0 \<and>
   timeoutChecks (snd (levenbergMarquardt 100 inverse1 (\<lambda>k. Fin 0) points line
          (noOptions\<lparr> opt_initialValues := JArray [Fin 2] \<rparr>))) = 0"
proof -
  let ?o = "noOptions\<lparr> opt_initialValues := JArray [Fin 2] \<rparr>"
  have "\<exists>r. checkOptions points line ?o (Fin 0) = Inr r \<and> parameters r = [Fin 2] \<and>
          weightSquare r = [Fin 1, Fin 1] \<and> errorTolerance r = Fin (1 / 10000000)"
    by (simp add: checkOptions_def points_def line_def noOptions_def Let_def jsDefault_def
          orDefault_def nle_def resolveGradientDifference_def resolveFiller_def resolveTimeout_def
          pow2_def upt_rec)
  then obtain r where r: "checkOptions points line ?o (Fin 0) = Inr r"
    and p: "parameters r = [Fin 2]" and w: "weightSquare r = [Fin 1, Fin 1]"
    and t: "errorTolerance r = Fin (1 / 10000000)" by blast
  have e: "errorCalculation points [Fin 2] line [Fin 1, Fin 1] = Fin 0"
    by (simp add: errorCalculation_def points_def line_def elemAt_def pow2_def nsub_def upt_rec)
  have "nle (errorCalculation points (parameters r) line (weightSquare r)) (errorTolerance r)"
    by (simp add: p w t e nle_def)
  from immediate_convergence [of points line ?o "\<lambda>k. Fin 0" r 100 inverse1, OF r this]
  show ?thesis by (simp add: p w e)
qed

section \<open>Weights\<close>

lemma map_filler_all_equal:
  assumes "\<forall>v\<in>set ws. v = w" and "n \<le> length ws"
  shows "map (\<lambda>i. ndiv (Fin 1) (pow2 (elemAt ws i))) [0..<n] =
         map (\<lambda>i. ndiv (Fin 1) (pow2 w)) [0..<n]"
  using assms by (auto simp: elemAt_def)

lemma checkOptions_equal_weights:
  assumes "ws \<noteq> []" and "\<forall>v\<in>set ws. v = w"
  shows "checkOptions d parameterizedFunction (opts\<lparr> opt_weights := JArray ws \<rparr>) now =
         checkOptions d parameterizedFunction (opts\<lparr> opt_weights := JNumber w \<rparr>) now"
proof -
  from assms have h: "elemAt ws 0 = w"
    by (cases ws) (auto simp: elemAt_def)
  show ?thesis
    using assms(2) h
    by (auto simp: checkOptions_def Let_def jsDefault_def resolveFiller_def
          map_filler_all_equal split: sum.splits)
qed

text \<open>
  C8. A non-empty array of weights whose entries all equal \<open>w\<close> gives the same run as
  the number \<open>w\<close>: the same result or error, and the same bookkeeping.
\<close>

theorem equal_weight_vector_as_scalar:
  assumes "ws \<noteq> []" and "\<forall>v\<in>set ws. v = w"
  shows "levenbergMarquardt fuel mlInverse clock d parameterizedFunction (opts\<lparr> opt_weights := JArray ws \<rparr>) =
         levenbergMarquardt fuel mlInverse clock d parameterizedFunction (opts\<lparr> opt_weights := JNumber w \<rparr>)"
  using checkOptions_equal_weights [OF assms]
  by (simp add: levenbergMarquardt_def)

theorem equal_weight_vector_as_scalar_witness:
  "[Fin 3, Fin 3] \<noteq> [] \<and>
   levenbergMarquardt 100 inverse1 (\<lambda>k. Fin 0) points line (noOptions\<lparr> opt_weights := JArray [Fin 3, Fin 3] \<rparr>) =
   levenbergMarquardt 100 inverse1 (\<lambda>k. Fin 0) points line (noOptions\<lparr> opt_weights := JNumber (Fin 3) \<rparr>)"
  using equal_weight_vector_as_scalar [of "[Fin 3, Fin 3]" "Fin 3" 100 inverse1 "\<lambda>k. Fin 0" points line noOptions]
  by simp

section \<open>Damping\<close>

lemma damping_down_bounded:
  assumes "dampingBounded v" and "nle (Fin 1) down"
  shows "dampingBounded (nmax (ndiv v down) (Fin (1 / 10000000)))"
proof (cases v)
  case (Fin a)
  with assms(1) have a: "1 / 10000000 \<le> a" "a \<le> 10000000"
    by (auto simp: dampingBounded_def nle_def)
  show ?thesis
  proof (cases down)
    case (Fin b)
    with assms(2) have b: "1 \<le> b" by (auto simp: nle_def)
    from a b have "a / b \<le> a" by (simp add: divide_le_eq)
    with a have "a / b \<le> 10000000" by linarith
    with Fin \<open>v = Fin a\<close> b show ?thesis
      by (auto simp: dampingBounded_def nle_def nmax_def)
  next
    case PInf
    with \<open>v = Fin a\<close> show ?thesis
      by (auto simp: dampingBounded_def nle_def nmax_def)
  qed (use assms(2) in \<open>auto simp: nle_def\<close>)
qed (use assms(1) in \<open>auto simp: dampingBounded_def nle_def\<close>)

lemma damping_up_bounded:
  assumes "dampingBounded v" and "nle (Fin 1) up"
  shows "dampingBounded (nmin (nmul v up) (Fin 10000000))"
proof (cases v)
  case (Fin a)
  with assms(1) have a: "1 / 10000000 \<le> a" "a \<le> 10000000"
    by (auto simp: dampingBounded_def nle_def)
  show ?thesis
  proof (cases up)
    case (Fin b)
    with assms(2) have b: "1 \<le> b" by (auto simp: nle_def)
    from a b have "a * 1 \<le> a * b" by (intro mult_left_mono) auto
    with a have "1 / 10000000 \<le> a * b" by linarith
    with Fin \<open>v = Fin a\<close> b show ?thesis
      by (auto simp: dampingBounded_def nle_def nmin_def)
  next
    case PInf
    with \<open>v = Fin a\<close> a show ?thesis
      by (auto simp: dampingBounded_def nle_def nmin_def signed_def)
  qed (use assms(2) in \<open>auto simp: nle_def\<close>)
qed (use assms(1) in \<open>auto simp: dampingBounded_def nle_def\<close>)

text \<open>
  C3, as amended. When the resolved \<open>damping\<close> lies in \<open>[1e-7, 1e7]\<close> and both
  \<open>dampingStepUp\<close> and \<open>dampingStepDown\<close> are at least 1, the damping at the start of
  every pass of the loop, which is the value \<open>step\<close> is called with, lies in
  \<open>[1e-7, 1e7]\<close>.
\<close>

theorem damping_stays_in_range:
  assumes "checkOptions d parameterizedFunction opts (clock 0) = Inr r"
    and "dampingBounded (damping r)"
    and "nle (Fin 1) (dampingStepUp r)"
    and "nle (Fin 1) (dampingStepDown r)"
  shows "\<forall>s\<in>set (visited (snd (levenbergMarquardt fuel mlInverse clock d parameterizedFunction opts))).
           dampingBounded (damping s)"
proof -
  define P where "P = (\<lambda>s :: lm_state. dampingBounded (damping s) \<and>
      nle (Fin 1) (dampingStepUp s) \<and> nle (Fin 1) (dampingStepDown s))"
  have inv: "P (s'\<lparr> iteration := iteration s' + 1 \<rparr>)"
    if "P s" and "loopBody mlInverse clock d parameterizedFunction s g = (Continue s', g')"
    for s g s' g'
    using that loopBody_damping [OF that(2)] loopBody_frame(4,5) [OF that(2)]
      damping_down_bounded [of "damping s" "dampingStepDown s"]
      damping_up_bounded [of "damping s" "dampingStepUp s"]
    by (auto simp: P_def)
  let ?s0 = "initialState r (errorCalculation d (parameters r) parameterizedFunction (weightSquare r))"
  have "P ?s0" using assms(2-4) by (simp add: P_def initialState_def)
  from visited_loop_invariant [of P mlInverse clock d parameterizedFunction ?s0
        "noCalls\<lparr> errorCalls := 1 \<rparr>" fuel, OF inv this]
  have "\<forall>t\<in>set (visited (snd (loop fuel mlInverse clock d parameterizedFunction ?s0
                 (noCalls\<lparr> errorCalls := 1 \<rparr>)))). P t"
    by (simp add: noCalls_def)
  with assms(1) show ?thesis
    by (simp add: levenbergMarquardt_def Let_def P_def)
qed

lemma checkOptions_points_line:
  "\<exists>r. checkOptions points line (noOptions\<lparr> opt_damping := v \<rparr>) (Fin 0) = Inr r \<and>
     damping r = orDefault v (Fin (1 / 100)) \<and> parameters r = [Fin 1] \<and>
     weightSquare r = [Fin 1, Fin 1] \<and> errorTolerance r = Fin (1 / 10000000) \<and>
     maxIterations r = Fin 100 \<and> dampingStepUp r = Fin 11 \<and> dampingStepDown r = Fin 9"
  if "\<not> nle (orDefault v (Fin (1 / 100))) (Fin 0)"
  using that
  by (simp add: checkOptions_def points_def line_def noOptions_def Let_def jsDefault_def
        orDefault_def resolveGradientDifference_def resolveFiller_def resolveTimeout_def
        pow2_def upt_rec)

lemma errorCalculation_points_line:
  "errorCalculation points [Fin 1] line [Fin 1, Fin 1] = Fin 5"
  by (simp add: errorCalculation_def points_def line_def elemAt_def pow2_def nsub_def upt_rec)

text \<open>
  The claim C3 as stated fails: \<open>checkOptions\<close> only rejects a damping that is at most
  zero, and the first pass uses the option unchanged. With \<open>damping = 1e9\<close> the first call
  of \<open>step\<close> gets \<open>1e9\<close>. (A hundred passes are all the passes of the call.)
\<close>

theorem damping_out_of_range_counterexample:
  "nlt (Fin 0) (Fin 1000000000) \<and>
   fst (levenbergMarquardt 100 inverse1 (\<lambda>k. Fin 0) points line
          (noOptions\<lparr> opt_damping := Some (Fin 1000000000) \<rparr>)) \<noteq> None \<and>
   \<not> (\<forall>s\<in>set (visited (snd (levenbergMarquardt 100 inverse1 (\<lambda>k. Fin 0) points line
                   (noOptions\<lparr> opt_damping := Some (Fin 1000000000) \<rparr>)))).
         dampingBounded (damping s))"
proof -
  let ?o = "noOptions\<lparr> opt_damping := Some (Fin 1000000000) \<rparr>"
  from checkOptions_points_line [of "Some (Fin 1000000000)"]
  obtain r where r: "checkOptions points line ?o (Fin 0) = Inr r"
    and f: "damping r = Fin 1000000000" "parameters r = [Fin 1]" "weightSquare r = [Fin 1, Fin 1]"
      "errorTolerance r = Fin (1 / 10000000)" "maxIterations r = Fin 100"
    by (auto simp: orDefault_def nle_def)
  let ?s0 = "initialState r (Fin 5)"
  have c: "running ?s0"
    by (simp add: running_def initialState_def f nle_def)
  from visited_loop_head [OF c, of 99 inverse1 "\<lambda>k. Fin 0" points line "noCalls\<lparr> errorCalls := 1 \<rparr>"]
  have "?s0 \<in> set (visited (snd (loop 100 inverse1 (\<lambda>k. Fin 0) points line ?s0 (noCalls\<lparr> errorCalls := 1 \<rparr>))))"
    by auto
  moreover have "\<not> dampingBounded (damping ?s0)"
    by (simp add: initialState_def f dampingBounded_def nle_def)
  moreover have "fst (levenbergMarquardt 100 inverse1 (\<lambda>k. Fin 0) points line ?o) \<noteq> None"
    by (rule levenbergMarquardt_returns [of points line ?o _ r 100]) (simp_all add: r f passBudget_def)
  ultimately show ?thesis
    using r f errorCalculation_points_line
    by (auto simp: levenbergMarquardt_def Let_def)
qed

theorem damping_stays_in_range_witness:
  "fst (levenbergMarquardt 100 inverse1 (\<lambda>k. Fin 0) points line noOptions) \<noteq> None \<and>
   visited (snd (levenbergMarquardt 100 inverse1 (\<lambda>k. Fin 0) points line noOptions)) \<noteq> [] \<and>
   list_all (\<lambda>s. dampingBounded (damping s))
     (visited (snd (levenbergMarquardt 100 inverse1 (\<lambda>k. Fin 0) points line noOptions)))"
proof -
  from checkOptions_points_line [of None]
  obtain r where r: "checkOptions points line noOptions (Fin 0) = Inr r"
    and f: "damping r = Fin (1 / 100)" "dampingStepUp r = Fin 11" "dampingStepDown r = Fin 9"
      "parameters r = [Fin 1]" "weightSquare r = [Fin 1, Fin 1]"
      "errorTolerance r = Fin (1 / 10000000)" "maxIterations r = Fin 100"
    by (auto simp: orDefault_def nle_def noOptions_def)
  let ?s0 = "initialState r (Fin 5)"
  have c: "running ?s0"
    by (simp add: running_def initialState_def f nle_def)
  from visited_loop_head [OF c, of 99 inverse1 "\<lambda>k. Fin 0" points line "noCalls\<lparr> errorCalls := 1 \<rparr>"]
  have n: "visited (snd (levenbergMarquardt 100 inverse1 (\<lambda>k. Fin 0) points line noOptions)) \<noteq> []"
    using r f errorCalculation_points_line by (auto simp: levenbergMarquardt_def Let_def)
  have t: "fst (levenbergMarquardt 100 inverse1 (\<lambda>k. Fin 0) points line noOptions) \<noteq> None"
    by (rule levenbergMarquardt_returns [of points line noOptions _ r 100]) (simp_all add: r f passBudget_def)
  have "\<forall>s\<in>set (visited (snd (levenbergMarquardt 100 inverse1 (\<lambda>k. Fin 0) points line noOptions))).
          dampingBounded (damping s)"
    by (rule damping_stays_in_range [of points line noOptions "\<lambda>k. Fin 0" r 100 inverse1])
       (simp_all add: r f dampingBounded_def nle_def)
  with n t show ?thesis by (simp add: list_all_iff)
qed

section \<open>Rejected steps\<close>

lemma step_line:
  "step inverse1 points [Fin 1] (Fin (1 / 100)) [Fin (1 / 10)] line False [Fin 1, Fin 1] =
   Inr \<lparr> perturbations = single (Fin (- (500 / 501))),
         jacobianWeigthResidualError = single (Fin (- 5)) \<rparr>"
  by (simp add: step_def dampedMatrix_def evaluate_def gradientFunction_def gradientBody_def
        matrixFunction_def setRow_def inverse1_def points_def line_def Let_def
        tabulate_def zeros_def eye_def mget_def mset_def transposeM_def scaleRow_def mmul_def
        addM_def elemAt_def nsub_def upt_rec single_def)

lemma clamp_line:
  "clampParameters [MIN_SAFE_INTEGER] [MAX_SAFE_INTEGER] [Fin 1]
     (single (Fin (- (500 / 501)))) = [Fin (1001 / 501)]"
  by (simp add: single_def clampParameters_def MIN_SAFE_INTEGER_def MAX_SAFE_INTEGER_def mget_def elemAt_def
        nmin_def nmax_def nsub_def)

lemma error_line_trial:
  "errorCalculation points [Fin (1001 / 501)] line [Fin 1, Fin 1] = Fin (5 / 251001)"
  by (simp add: errorCalculation_def points_def line_def elemAt_def pow2_def nsub_def upt_rec
        power2_eq_square)

lemma metric_line:
  "improvementMetric (Fin 5) (Fin (5 / 251001))
     (single (Fin (- (500 / 501)))) (Fin (1 / 100)) (single (Fin (- 5))) = Fin 1"
  by (simp add: single_def improvementMetric_def tabulate_def mget_def transposeM_def mmul_def
        addM_def mulS_def elemAt_def nsub_def upt_rec)

text \<open>
  C2. In a pass of the loop whose new error is not \<open>NaN\<close> and whose improvement metric
  is not greater than \<open>improvementThreshold\<close> (and where the timeout does not expire), the
  step is rejected: the recorded error is the previous error again, the parameters stay
  at the clamped trial values, the damping becomes \<open>min(damping * dampingStepUp, 1e7)\<close>,
  and the loop goes on from these variables.
\<close>

theorem rejected_step_keeps_trial_parameters:
  assumes "step mlInverse d (parameters s) (damping s) (gradientDifference s)
             parameterizedFunction (centralDifference s) (weightSquare s) = Inr r"
    and "trial = clampParameters (minValues s) (maxValues s) (parameters s) (perturbations r)"
    and "newError = errorCalculation d trial parameterizedFunction (weightSquare s)"
    and "\<not> isNaN newError"
    and "\<not> ngt (improvementMetric (error s) newError (perturbations r) (damping s)
                  (jacobianWeigthResidualError r)) (improvementThreshold s)"
    and "\<not> checkTimeout s (clock (timeoutChecks g + 1))"
  shows "\<exists>s' g'. loopBody mlInverse clock d parameterizedFunction s g = (Continue s', g') \<and>
           error s' = error s \<and>
           parameters s' = trial \<and>
           damping s' = nmin (nmul (damping s) (dampingStepUp s)) (Fin 10000000) \<and>
           (running s \<longrightarrow>
              loop (Suc fuel) mlInverse clock d parameterizedFunction s g =
              loop fuel mlInverse clock d parameterizedFunction (s'\<lparr> iteration := iteration s + 1 \<rparr>) g')"
proof -
  obtain f g' where b: "loopBody mlInverse clock d parameterizedFunction s g = (f, g')"
    by (cases "loopBody mlInverse clock d parameterizedFunction s g")
  with assms obtain s' where f: "f = Continue s'"
    and p: "error s' = error s" "parameters s' = trial"
      "damping s' = nmin (nmul (damping s) (dampingStepUp s)) (Fin 10000000)"
      "iteration s' = iteration s"
    by (auto simp: loopBody_def Let_def)
  have "loop (Suc fuel) mlInverse clock d parameterizedFunction s g =
        loop fuel mlInverse clock d parameterizedFunction (s'\<lparr> iteration := iteration s + 1 \<rparr>) g'"
    if "running s"
    using loop_go [OF that, of fuel mlInverse clock d parameterizedFunction g] b f p(4) by simp
  with b f p show ?thesis by simp
qed

theorem rejected_step_keeps_trial_parameters_witness:
  "\<exists>s' g'. loopBody inverse1 (\<lambda>k. Fin 0) points line
              (exampleState\<lparr> improvementThreshold := Fin 2 \<rparr>) noCalls = (Continue s', g') \<and>
     error s' = Fin 5 \<and> parameters s' = [Fin (1001 / 501)] \<and> damping s' = Fin (11 / 100) \<and>
     running (exampleState\<lparr> improvementThreshold := Fin 2 \<rparr>) \<and>
     loop (Suc 0) inverse1 (\<lambda>k. Fin 0) points line
       (exampleState\<lparr> improvementThreshold := Fin 2 \<rparr>) noCalls =
     loop 0 inverse1 (\<lambda>k. Fin 0) points line (s'\<lparr> iteration := 1 \<rparr>) g'"
proof -
  let ?s = "exampleState\<lparr> improvementThreshold := Fin 2 \<rparr>"
  have r: "running ?s"
    by (simp add: running_def exampleState_def)
  have "\<exists>s' g'. loopBody inverse1 (\<lambda>k. Fin 0) points line ?s noCalls = (Continue s', g') \<and>
           error s' = error ?s \<and>
           parameters s' = [Fin (1001 / 501)] \<and>
           damping s' = nmin (nmul (damping ?s) (dampingStepUp ?s)) (Fin 10000000) \<and>
           (running ?s \<longrightarrow>
              loop (Suc 0) inverse1 (\<lambda>k. Fin 0) points line ?s noCalls =
              loop 0 inverse1 (\<lambda>k. Fin 0) points line (s'\<lparr> iteration := iteration ?s + 1 \<rparr>) g')"
    by (rule rejected_step_keeps_trial_parameters
          [where r = "\<lparr> perturbations = single (Fin (- (500 / 501))),
                        jacobianWeigthResidualError = single (Fin (- 5)) \<rparr>"
             and newError = "Fin (5 / 251001)"])
       (simp_all add: exampleState_def step_line clamp_line error_line_trial metric_line ngt_def)
  then obtain s' g' where
    "loopBody inverse1 (\<lambda>k. Fin 0) points line ?s noCalls = (Continue s', g')"
    "error s' = error ?s" "parameters s' = [Fin (1001 / 501)]"
    "damping s' = nmin (nmul (damping ?s) (dampingStepUp ?s)) (Fin 10000000)"
    "loop (Suc 0) inverse1 (\<lambda>k. Fin 0) points line ?s noCalls =
     loop 0 inverse1 (\<lambda>k. Fin 0) points line (s'\<lparr> iteration := iteration ?s + 1 \<rparr>) g'"
    using r by blast
  then have "loopBody inverse1 (\<lambda>k. Fin 0) points line ?s noCalls = (Continue s', g') \<and>
     error s' = Fin 5 \<and> parameters s' = [Fin (1001 / 501)] \<and> damping s' = Fin (11 / 100) \<and>
     loop (Suc 0) inverse1 (\<lambda>k. Fin 0) points line ?s noCalls =
     loop 0 inverse1 (\<lambda>k. Fin 0) points line (s'\<lparr> iteration := 1 \<rparr>) g'"
    by (simp add: exampleState_def nmin_def)
  with r show ?thesis by blast
qed

section \<open>A new error that is not a number\<close>

lemma step_ratio_one:
  "step inverse1 points [Fin 1] (Fin (1 / 100)) [Fin (1 / 10)] ratio False [Fin 1, Fin 1] =
   Inr \<lparr> perturbations = single (Fin (55000 / 50121)),
         jacobianWeigthResidualError = single (Fin (50 / 11)) \<rparr>"
  by (simp add: step_def dampedMatrix_def evaluate_def gradientFunction_def gradientBody_def
        matrixFunction_def setRow_def inverse1_def points_def ratio_def Let_def
        tabulate_def zeros_def eye_def mget_def mset_def transposeM_def scaleRow_def mmul_def
        addM_def elemAt_def nsub_def upt_rec single_def)

lemma step_ratio_zero:
  "step inverse1 points [Fin 0] (Fin a) [Fin (1 / 10)] ratio False [Fin 1, Fin 1] =
   Inr \<lparr> perturbations = single NaN, jacobianWeigthResidualError = single NInf \<rparr>"
  by (simp add: step_def dampedMatrix_def evaluate_def gradientFunction_def gradientBody_def
        matrixFunction_def setRow_def inverse1_def points_def ratio_def Let_def
        tabulate_def zeros_def eye_def mget_def mset_def transposeM_def scaleRow_def mmul_def
        addM_def elemAt_def nsub_def upt_rec single_def signed_def)

lemma clamp_pinned_one:
  "clampParameters [Fin 0] [Fin 0] [Fin 1] (single (Fin (55000 / 50121))) = [Fin 0]"
  by (simp add: single_def clampParameters_def mget_def elemAt_def nmin_def nmax_def nsub_def)

lemma clamp_pinned_nan:
  "clampParameters [Fin 0] [Fin 0] [Fin 0] (single NaN) = [NaN]"
  by (simp add: single_def clampParameters_def mget_def elemAt_def nmin_def nmax_def nsub_def)

lemma error_ratio_zero:
  "errorCalculation points [Fin 0] ratio [Fin 1, Fin 1] = PInf"
  by (simp add: errorCalculation_def points_def ratio_def elemAt_def pow2_def nsub_def upt_rec
        signed_def)

lemma error_ratio_one:
  "errorCalculation points [Fin 1] ratio [Fin 1, Fin 1] = Fin 5"
  by (simp add: errorCalculation_def points_def ratio_def elemAt_def pow2_def nsub_def upt_rec)

lemma error_ratio_nan:
  "errorCalculation points [NaN] ratio [Fin 1, Fin 1] = NaN"
  by (simp add: errorCalculation_def points_def ratio_def elemAt_def pow2_def nsub_def upt_rec)

lemma metric_ratio:
  "improvementMetric (Fin 5) PInf (single (Fin (55000 / 50121))) (Fin (1 / 100))
     (single (Fin (50 / 11))) = NInf"
  by (simp add: single_def improvementMetric_def tabulate_def mget_def transposeM_def mmul_def
        addM_def mulS_def elemAt_def nsub_def upt_rec signed_def)

lemma loopBody_nan:
  assumes "step mlInverse d (parameters s) (damping s) (gradientDifference s)
             parameterizedFunction (centralDifference s) (weightSquare s) = Inr r"
    and "trial = clampParameters (minValues s) (maxValues s) (parameters s) (perturbations r)"
    and "isNaN (errorCalculation d trial parameterizedFunction (weightSquare s))"
  shows "loopBody mlInverse clock d parameterizedFunction s g =
          (Break (s\<lparr> parameters := trial, error := NaN \<rparr>),
           g\<lparr> stepCalls := stepCalls g + 1, visited := visited g @ [s],
              errorCalls := errorCalls g + 1 \<rparr>)"
proof -
  from assms(3) have "errorCalculation d trial parameterizedFunction (weightSquare s) = NaN"
    by (cases "errorCalculation d trial parameterizedFunction (weightSquare s)") auto
  with assms(1,2) show ?thesis
    by (simp add: loopBody_def Let_def)
qed

text \<open>
  C5, as amended. In a pass of the loop whose new error is \<open>NaN\<close>, the call leaves the
  loop at once and returns, without throwing, the clamped trial parameters, the error
  \<open>NaN\<close> and the index of that pass as \<open>iterations\<close>; \<open>checkTimeout\<close> is not called in
  that pass.
\<close>

theorem nan_error_leaves_loop:
  assumes "running s"
    and "step mlInverse d (parameters s) (damping s) (gradientDifference s)
           parameterizedFunction (centralDifference s) (weightSquare s) = Inr r"
    and "trial = clampParameters (minValues s) (maxValues s) (parameters s) (perturbations r)"
    and "isNaN (errorCalculation d trial parameterizedFunction (weightSquare s))"
  shows "loop (Suc fuel) mlInverse clock d parameterizedFunction s g =
           (Some (Inr \<lparr> parameterValues = trial, parameterError = NaN, iterations = iteration s \<rparr>),
            g\<lparr> stepCalls := stepCalls g + 1, visited := visited g @ [s],
               errorCalls := errorCalls g + 1 \<rparr>)"
  using loopBody_nan [OF assms(2-4), of clock g]
  by (simp add: loop_go [OF assms(1)] finish_def)

theorem nan_error_leaves_loop_witness:
  "running (pinnedState\<lparr> parameters := [Fin 0], damping := Fin (11 / 100) \<rparr>) \<and>
   loop 100 inverse1 (\<lambda>k. Fin 0) points ratio
     (pinnedState\<lparr> parameters := [Fin 0], damping := Fin (11 / 100) \<rparr>) noCalls =
   (Some (Inr \<lparr> parameterValues = [NaN], parameterError = NaN, iterations = 0 \<rparr>),
    noCalls\<lparr> stepCalls := 1,
      visited := [pinnedState\<lparr> parameters := [Fin 0], damping := Fin (11 / 100) \<rparr>],
      errorCalls := 1 \<rparr>)"
proof -
  let ?s = "pinnedState\<lparr> parameters := [Fin 0], damping := Fin (11 / 100) \<rparr>"
  have r: "running ?s"
    by (simp add: running_def pinnedState_def exampleState_def)
  have "loop (Suc 99) inverse1 (\<lambda>k. Fin 0) points ratio ?s noCalls =
          (Some (Inr \<lparr> parameterValues = [NaN], parameterError = NaN, iterations = iteration ?s \<rparr>),
           noCalls\<lparr> stepCalls := stepCalls noCalls + 1, visited := visited noCalls @ [?s],
              errorCalls := errorCalls noCalls + 1 \<rparr>)"
    by (rule nan_error_leaves_loop [where r = "\<lparr> perturbations = single NaN,
            jacobianWeigthResidualError = single NInf \<rparr>"])
       (simp_all add: r, simp_all add: pinnedState_def exampleState_def step_ratio_zero
          clamp_pinned_nan error_ratio_nan)
  with r show ?thesis by (simp add: pinnedState_def exampleState_def noCalls_def)
qed

text \<open>
  The claim C5 as stated fails for an error that is infinite: \<open>isNaN(Infinity)\<close> is
  false. With the model \<open>x / p[0]\<close> and both bounds at \<open>0\<close> the first pass clamps the
  parameter to \<open>0\<close>, where the error is \<open>+Infinity\<close>; the pass completes, the step is
  rejected, and with \<open>maxIterations = 1\<close> the call returns the reverted error \<open>5\<close> and
  \<open>iterations = 1\<close>.
\<close>

theorem infinite_error_counterexample:
  "errorCalculation points [Fin 0] ratio [Fin 1, Fin 1] = PInf \<and>
   fst (levenbergMarquardt 100 inverse1 (\<lambda>k. Fin 0) points ratio onePass) =
     Some (Inr \<lparr> parameterValues = [Fin 0], parameterError = Fin 5, iterations = 1 \<rparr>)"
proof -
  let ?s = "pinnedState\<lparr> maxIterations := Fin 1 \<rparr>"
  have c: "checkOptions points ratio onePass (Fin 0) = Inr (resolved.truncate ?s)"
    by (simp add: checkOptions_def points_def ratio_def pinnedOptions_def noOptions_def Let_def
          jsDefault_def orDefault_def nle_def resolveGradientDifference_def resolveFiller_def
          resolveTimeout_def pow2_def upt_rec pinnedState_def exampleState_def onePass_def
          resolved.truncate_def lm_state.defs resolved.defs)
  have i: "initialState (resolved.truncate ?s) (Fin 5) = ?s"
    by (simp add: initialState_def pinnedState_def exampleState_def resolved.truncate_def nle_def
          lm_state.defs resolved.defs)
  have b: "loopBody inverse1 (\<lambda>k. Fin 0) points ratio ?s (noCalls\<lparr> errorCalls := Suc 0 \<rparr>) =
        (Continue (?s\<lparr> parameters := [Fin 0], damping := Fin (11 / 100) \<rparr>),
         \<lparr> errorCalls = 2, stepCalls = 1, timeoutChecks = 1, visited = [?s] \<rparr>)"
    by (simp add: loopBody_def Let_def pinnedState_def exampleState_def step_ratio_one
          clamp_pinned_one error_ratio_zero metric_ratio ngt_def nmin_def nle_def noCalls_def)
  have g: "running ?s"
    by (simp add: running_def pinnedState_def exampleState_def)
  have it: "iteration ?s = 0"
    by (simp add: pinnedState_def exampleState_def)
  have e: "errorCalculation points (parameters (resolved.truncate ?s)) ratio
             (weightSquare (resolved.truncate ?s)) = Fin 5"
    by (simp add: pinnedState_def exampleState_def resolved.truncate_def error_ratio_one
          lm_state.defs resolved.defs)
  have "fst (levenbergMarquardt 100 inverse1 (\<lambda>k. Fin 0) points ratio onePass) =
        fst (loop (Suc 99) inverse1 (\<lambda>k. Fin 0) points ratio ?s (noCalls\<lparr> errorCalls := Suc 0 \<rparr>))"
    by (simp add: levenbergMarquardt_def c e i)
  also have "\<dots> = fst (loop 99 inverse1 (\<lambda>k. Fin 0) points ratio
        (?s\<lparr> parameters := [Fin 0], damping := Fin (11 / 100), iteration := Suc 0 \<rparr>)
        \<lparr> errorCalls = 2, stepCalls = 1, timeoutChecks = 1, visited = [?s] \<rparr>)"
    using loop_go [OF g, of 99 inverse1 "\<lambda>k. Fin 0" points ratio "noCalls\<lparr> errorCalls := Suc 0 \<rparr>"] b it
    by simp
  also have "\<dots> = Some (Inr \<lparr> parameterValues = [Fin 0], parameterError = Fin 5, iterations = 1 \<rparr>)"
    by (subst loop_stop) (simp_all add: running_def finish_def pinnedState_def exampleState_def)
  finally show ?thesis by (simp add: error_ratio_zero)
qed

section \<open>Equal bounds\<close>


lemma clamp_not_nan:
  "\<not> isNaN x \<Longrightarrow> nmin (nmax v x) v = v"
  by (cases v; cases x) (auto simp: nmin_def nmax_def)

lemma clamp_nan:
  "nmin (nmax v (nsub NaN x)) v = NaN"
  by (simp add: nmin_def nmax_def nsub_def)





lemma error_inverseLaw:
  "errorCalculation pointsFromZero [v] inverseLaw [Fin 1, Fin 1] = NaN" if "v = Fin 0 \<or> v = NaN"
  using that
  by (auto simp add: errorCalculation_def pointsFromZero_def inverseLaw_def elemAt_def pow2_def
        nsub_def upt_rec)









section \<open>The shape of the Jacobian\<close>

text \<open>
  The matrix of \<open>gradientFunction\<close> is allocated with one row per parameter. A pass of
  its loop for a parameter whose step is \<open>0\<close> writes nothing and does not advance
  \<open>rowIndex\<close>; a pass for another parameter writes its row of differences at \<open>rowIndex\<close>.
  So the rows of the parameters with a non-zero step come first, in the order of the
  parameters, and the remaining rows stay zero; the matrix that \<open>step\<close> inverts is
  square of the dimension of the parameter vector.
\<close>

lemma mset_fields [simp]:
  "rows (mset m i j v) = rows m" "columns (mset m i j v) = columns m"
  "length (mdata (mset m i j v)) = length (mdata m)"
  by (simp_all add: mset_def)

lemma setRow_prefix:
  assumes "rowIndex < length (mdata ans)" and "k \<le> length (mdata ans ! rowIndex)"
  shows "mdata (foldl (\<lambda>a point. mset a rowIndex point (f point)) ans [0..<k]) =
         (mdata ans)[rowIndex := map f [0..<k] @ drop k (mdata ans ! rowIndex)]"
  using assms(2)
proof (induction k)
  case 0
  then show ?case by simp
next
  case (Suc k)
  then have k: "k < length (mdata ans ! rowIndex)" by simp
  have "(map f [0..<k] @ drop k (mdata ans ! rowIndex))[k := f k] =
        map f [0..<k] @ (drop k (mdata ans ! rowIndex))[0 := f k]"
    by (simp add: list_update_append)
  also have "(drop k (mdata ans ! rowIndex))[0 := f k] = f k # drop (Suc k) (mdata ans ! rowIndex)"
    using k by (simp add: Cons_nth_drop_Suc [symmetric])
  finally show ?case
    using Suc assms(1) k by (simp add: mset_def)
qed

lemma setRow_fields [simp]:
  "rows (setRow ans rowIndex nbPoints f) = rows ans"
  "columns (setRow ans rowIndex nbPoints f) = columns ans"
  "length (mdata (setRow ans rowIndex nbPoints f)) = length (mdata ans)"
proof -
  have "rows (foldl (\<lambda>a point. mset a rowIndex point (f point)) ans ps) = rows ans \<and>
        columns (foldl (\<lambda>a point. mset a rowIndex point (f point)) ans ps) = columns ans \<and>
        length (mdata (foldl (\<lambda>a point. mset a rowIndex point (f point)) ans ps)) = length (mdata ans)"
    for ps
    by (induction ps arbitrary: ans) simp_all
  then show "rows (setRow ans rowIndex nbPoints f) = rows ans"
    "columns (setRow ans rowIndex nbPoints f) = columns ans"
    "length (mdata (setRow ans rowIndex nbPoints f)) = length (mdata ans)"
    by (simp_all add: setRow_def)
qed

lemma mdata_setRow:
  assumes "rowIndex < length (mdata ans)" and "length (mdata ans ! rowIndex) = nbPoints"
  shows "mdata (setRow ans rowIndex nbPoints f) = (mdata ans)[rowIndex := map f [0..<nbPoints]]"
  using setRow_prefix [OF assms(1), of nbPoints f] assms(2) by (simp add: setRow_def)


lemma gradientBody_inactive:
  "elemAt gradDiff param = Fin 0 \<Longrightarrow>
   gradientBody d evaluatedData params gradDiff paramFunction central param (ans, rowIndex) =
     (ans, rowIndex)"
  by (simp add: gradientBody_def)

lemma gradientBody_active:
  assumes "elemAt gradDiff param \<noteq> Fin 0"
  obtains f where
    "\<And>ans rowIndex.
       gradientBody d evaluatedData params gradDiff paramFunction central param (ans, rowIndex) =
         (setRow ans rowIndex (length (elements (data_x d))) f, rowIndex + 1)"
  using assms by (cases central) (simp_all add: gradientBody_def Let_def)

lemma gradientBody_row:
  assumes "elemAt gradDiff param \<noteq> Fin 0"
    and "rowIndex < length (mdata ans)"
    and "length (mdata ans ! rowIndex) = length (elements (data_x d))"
  shows "\<exists>ans'. gradientBody d evaluatedData params gradDiff paramFunction central param
                  (ans, rowIndex) = (ans', rowIndex + 1) \<and>
           rows ans' = rows ans \<and> columns ans' = columns ans \<and>
           mdata ans' = (mdata ans)[rowIndex :=
              differenceRow d evaluatedData params gradDiff paramFunction central param] \<and>
           length (differenceRow d evaluatedData params gradDiff paramFunction central param) =
             length (elements (data_x d))"
proof -
  let ?m = "length (elements (data_x d))"
  from gradientBody_active [OF assms(1), of d evaluatedData params paramFunction central]
  obtain f where f: "\<And>ans rowIndex.
       gradientBody d evaluatedData params gradDiff paramFunction central param (ans, rowIndex) =
         (setRow ans rowIndex ?m f, rowIndex + 1)"
    by blast
  have "differenceRow d evaluatedData params gradDiff paramFunction central param =
        mdata (setRow (zeros 1 ?m) 0 ?m f) ! 0"
    by (simp add: differenceRow_def f)
  also have "\<dots> = map f [0..<?m]"
    by (subst mdata_setRow) (simp_all add: zeros_def)
  finally have r: "differenceRow d evaluatedData params gradDiff paramFunction central param =
        map f [0..<?m]" .
  show ?thesis
    using mdata_setRow [OF assms(2,3), of f] by (simp add: f r)
qed

lemma gradient_fold:
  assumes "length (mdata ans) = n"
    and "\<forall>row\<in>set (mdata ans). length row = length (elements (data_x d))"
    and "rowIndex + length (filter (\<lambda>param. elemAt gradDiff param \<noteq> Fin 0) ps) \<le> n"
  shows "\<exists>ans'. fold (gradientBody d evaluatedData params gradDiff paramFunction central) ps
                  (ans, rowIndex) =
                (ans', rowIndex + length (filter (\<lambda>param. elemAt gradDiff param \<noteq> Fin 0) ps)) \<and>
           rows ans' = rows ans \<and> columns ans' = columns ans \<and>
           mdata ans' =
             take rowIndex (mdata ans) @
             map (differenceRow d evaluatedData params gradDiff paramFunction central)
               (filter (\<lambda>param. elemAt gradDiff param \<noteq> Fin 0) ps) @
             drop (rowIndex + length (filter (\<lambda>param. elemAt gradDiff param \<noteq> Fin 0) ps))
               (mdata ans)"
  using assms
proof (induction ps arbitrary: ans rowIndex)
  case Nil
  then show ?case by simp
next
  case (Cons param ps)
  show ?case
  proof (cases "elemAt gradDiff param = Fin 0")
    case True
    with Cons.IH [of ans rowIndex] Cons.prems show ?thesis
      by (simp add: gradientBody_inactive)
  next
    case False
    let ?row = "differenceRow d evaluatedData params gradDiff paramFunction central param"
    from False Cons.prems have i: "rowIndex < length (mdata ans)" by simp
    with Cons.prems(2) have l: "length (mdata ans ! rowIndex) = length (elements (data_x d))"
      by simp
    from gradientBody_row [OF False i l, of evaluatedData params paramFunction central]
    obtain ans1 where b: "gradientBody d evaluatedData params gradDiff paramFunction central param
                  (ans, rowIndex) = (ans1, rowIndex + 1)"
      and f: "rows ans1 = rows ans" "columns ans1 = columns ans"
      and m: "mdata ans1 = (mdata ans)[rowIndex := ?row]"
      and r: "length ?row = length (elements (data_x d))"
      by blast
    have p1: "length (mdata ans1) = n" using m Cons.prems(1) by simp
    have p2: "\<forall>row\<in>set (mdata ans1). length row = length (elements (data_x d))"
      using m r Cons.prems(2) by (auto dest: set_update_subset_insert [THEN subsetD])
    have p3: "rowIndex + 1 + length (filter (\<lambda>param. elemAt gradDiff param \<noteq> Fin 0) ps) \<le> n"
      using False Cons.prems(3) by simp
    have t: "take (rowIndex + 1) (mdata ans1) = take rowIndex (mdata ans) @ [?row]"
      using i m by (simp add: take_Suc_conv_app_nth)
    have dr: "drop (rowIndex + 1 + k) (mdata ans1) = drop (rowIndex + 1 + k) (mdata ans)" for k
      using m by simp
    let ?k = "length (filter (\<lambda>param. elemAt gradDiff param \<noteq> Fin 0) ps)"
    from Cons.IH [OF p1 p2 p3]
    obtain ans' where
      fo: "fold (gradientBody d evaluatedData params gradDiff paramFunction central) ps
             (ans1, rowIndex + 1) = (ans', rowIndex + 1 + ?k)"
      and f': "rows ans' = rows ans1" "columns ans' = columns ans1"
      and m': "mdata ans' = take (rowIndex + 1) (mdata ans1) @
             map (differenceRow d evaluatedData params gradDiff paramFunction central)
               (filter (\<lambda>param. elemAt gradDiff param \<noteq> Fin 0) ps) @
             drop (rowIndex + 1 + ?k) (mdata ans1)"
      by blast
    have "fold (gradientBody d evaluatedData params gradDiff paramFunction central) (param # ps)
            (ans, rowIndex) = (ans', rowIndex + 1 + ?k)"
      using b fo by simp
    moreover have "mdata ans' = take rowIndex (mdata ans) @
             map (differenceRow d evaluatedData params gradDiff paramFunction central)
               (param # filter (\<lambda>param. elemAt gradDiff param \<noteq> Fin 0) ps) @
             drop (rowIndex + 1 + ?k) (mdata ans)"
      unfolding m' t dr by simp
    ultimately show ?thesis
      using f f' False by simp

  qed
qed

lemma gradientFunction_shape:
  "rows (gradientFunction d evaluatedData params gradDiff paramFunction central) = length params \<and>
   columns (gradientFunction d evaluatedData params gradDiff paramFunction central) =
     length (elements (data_x d)) \<and>
   mdata (gradientFunction d evaluatedData params gradDiff paramFunction central) =
     map (differenceRow d evaluatedData params gradDiff paramFunction central)
       (activeParameters gradDiff (length params)) @
     replicate (length params - length (activeParameters gradDiff (length params)))
       (replicate (length (elements (data_x d))) (Fin 0))"
proof -
  let ?n = "length params" and ?m = "length (elements (data_x d))"
  have l: "length (filter (\<lambda>param. elemAt gradDiff param \<noteq> Fin 0) [0..<?n]) \<le> ?n"
    using length_filter_le [of _ "[0..<?n]"] by simp
  have "\<forall>row\<in>set (mdata (zeros ?n ?m)). length row = ?m"
    by (simp add: zeros_def)
  from gradient_fold [of "zeros ?n ?m" ?n d 0 gradDiff "[0..<?n]" evaluatedData params
      paramFunction central, OF _ this] l
  obtain ans' where
    fo: "fold (gradientBody d evaluatedData params gradDiff paramFunction central) [0..<?n]
           (zeros ?n ?m, 0) = (ans', length (activeParameters gradDiff ?n))"
    and f': "rows ans' = ?n" "columns ans' = ?m"
    and m': "mdata ans' =
             map (differenceRow d evaluatedData params gradDiff paramFunction central)
               (activeParameters gradDiff ?n) @
             drop (length (activeParameters gradDiff ?n)) (mdata (zeros ?n ?m))"
    by (auto simp: zeros_def activeParameters_def)
  have "gradientFunction d evaluatedData params gradDiff paramFunction central = ans'"
    by (simp add: gradientFunction_def fo)
  with f' m' show ?thesis
    by (simp add: zeros_def)
qed


lemma tabulate_fields [simp]:
  "rows (tabulate r c f) = r" "columns (tabulate r c f) = c" "length (mdata (tabulate r c f)) = r"
  by (simp_all add: tabulate_def)

lemma dampedMatrix_shape:
  "rows (dampedMatrix d params dampingValue gradDiff parameterizedFunction central weights) =
     length params \<and>
   columns (dampedMatrix d params dampingValue gradDiff parameterizedFunction central weights) =
     length params \<and>
   length (mdata (dampedMatrix d params dampingValue gradDiff parameterizedFunction central weights)) =
     length params"
  by (simp add: dampedMatrix_def Let_def addM_def eye_def)

lemma step_affine:
  "step inverse2 points [Fin 1, Fin 1] (Fin (1 / 100)) [Fin 0, Fin 1] affine False [Fin 1, Fin 1] =
   Inr \<lparr> perturbations = column2 (Fin (- (200 / 501))) (Fin 0),
         jacobianWeigthResidualError = column2 (Fin (- 2)) (Fin 0) \<rparr>"
  by (simp add: step_def dampedMatrix_def evaluate_def gradientFunction_def gradientBody_def
        matrixFunction_def setRow_def inverse2_def points_def affine_def Let_def
        tabulate_def zeros_def eye_def mget_def mset_def transposeM_def scaleRow_def mmul_def
        addM_def elemAt_def nsub_def upt_rec column2_def)

lemma clamp_affine:
  "clampParameters [MIN_SAFE_INTEGER, MIN_SAFE_INTEGER] [MAX_SAFE_INTEGER, MAX_SAFE_INTEGER]
     [Fin 1, Fin 1] (column2 (Fin (- (200 / 501))) (Fin 0)) = [Fin (701 / 501), Fin 1]"
  by (simp add: column2_def clampParameters_def MIN_SAFE_INTEGER_def MAX_SAFE_INTEGER_def mget_def
        elemAt_def nmin_def nmax_def nsub_def upt_rec)

lemma error_affine_start:
  "errorCalculation points [Fin 1, Fin 1] affine [Fin 1, Fin 1] = Fin 1"
  by (simp add: errorCalculation_def points_def affine_def elemAt_def pow2_def nsub_def upt_rec)

lemma error_affine_trial:
  "errorCalculation points [Fin (701 / 501), Fin 1] affine [Fin 1, Fin 1] = Fin (130601 / 251001)"
  by (simp add: errorCalculation_def points_def affine_def elemAt_def pow2_def nsub_def upt_rec
        power2_eq_square)

lemma metric_affine:
  "improvementMetric (Fin 1) (Fin (130601 / 251001)) (column2 (Fin (- (200 / 501))) (Fin 0))
     (Fin (1 / 100)) (column2 (Fin (- 2)) (Fin 0)) = Fin (301 / 502)"
  by (simp add: column2_def improvementMetric_def tabulate_def mget_def transposeM_def mmul_def
        addM_def mulS_def elemAt_def nsub_def upt_rec)

lemma loopBody_held:
  "loopBody inverse2 (\<lambda>k. Fin 0) points affine heldState (noCalls\<lparr> errorCalls := Suc 0 \<rparr>) =
     (Continue (heldState\<lparr> parameters := [Fin (701 / 501), Fin 1], damping := Fin (1 / 900),
                 error := Fin (130601 / 251001) \<rparr>),
      \<lparr> errorCalls = 2, stepCalls = 1, timeoutChecks = 1, visited = [heldState] \<rparr>)"
  by (simp add: loopBody_def Let_def heldState_def exampleState_def step_affine
        clamp_affine error_affine_trial metric_affine ngt_def nmax_def nle_def noCalls_def)

text \<open>
  C4. The program does not do what the claim says: the Jacobian always has one row per
  parameter and \<open>step\<close> inverts a matrix of the dimension of the parameter vector. The
  rows of the parameters with a non-zero step are packed at the top, but \<open>step\<close> and
  the loop read row \<open>k\<close> as the row of parameter \<open>k\<close>. With the model \<open>p[0] + p[1] * x\<close>,
  the initial values \<open>[1, 1]\<close> and the steps \<open>[0, 1]\<close>, the only parameter with a
  non-zero step is parameter \<open>1\<close>; its row of differences is row \<open>0\<close> of the Jacobian
  and row \<open>1\<close> is zero, the matrix inverted is two by two, and after one pass the call
  returns \<open>[701 / 501, 1]\<close>: the parameter whose step is zero has moved, by the differences
  taken for the other parameter, which has not moved.
\<close>

theorem zero_step_parameter_moves:
  "opt_initialValues heldOptions = JArray [Fin 1, Fin 1] \<and>
   opt_gradientDifference heldOptions = JArray [Fin 0, Fin 1] \<and>
   activeParameters [Fin 0, Fin 1] 2 = [1] \<and>
   differenceRow points (evaluate points [Fin 1, Fin 1] affine) [Fin 1, Fin 1] [Fin 0, Fin 1]
     affine False 1 = [Fin (- 1), Fin (- 2)] \<and>
   mdata (gradientFunction points (evaluate points [Fin 1, Fin 1] affine) [Fin 1, Fin 1]
           [Fin 0, Fin 1] affine False) = [[Fin (- 1), Fin (- 2)], [Fin 0, Fin 0]] \<and>
   rows (dampedMatrix points [Fin 1, Fin 1] (Fin (1 / 100)) [Fin 0, Fin 1] affine False
           [Fin 1, Fin 1]) = 2 \<and>
   columns (dampedMatrix points [Fin 1, Fin 1] (Fin (1 / 100)) [Fin 0, Fin 1] affine False
           [Fin 1, Fin 1]) = 2 \<and>
   fst (levenbergMarquardt 100 inverse2 (\<lambda>k. Fin 0) points affine heldOptions) =
     Some (Inr \<lparr> parameterValues = [Fin (701 / 501), Fin 1],
                 parameterError = Fin (130601 / 251001), iterations = 1 \<rparr>)"
proof -
  let ?s = heldState
  have c: "checkOptions points affine heldOptions (Fin 0) = Inr (resolved.truncate ?s)"
    by (simp add: checkOptions_def points_def affine_def heldOptions_def noOptions_def Let_def
          jsDefault_def orDefault_def nle_def resolveGradientDifference_def resolveFiller_def
          resolveTimeout_def pow2_def upt_rec heldState_def exampleState_def
          resolved.truncate_def lm_state.defs resolved.defs numeral_2_eq_2)
  have i: "initialState (resolved.truncate ?s) (Fin 1) = ?s"
    by (simp add: initialState_def heldState_def exampleState_def resolved.truncate_def nle_def
          lm_state.defs resolved.defs)
  have g: "running ?s"
    by (simp add: running_def heldState_def exampleState_def)
  have it: "iteration ?s = 0"
    by (simp add: heldState_def exampleState_def)
  have e: "errorCalculation points (parameters (resolved.truncate ?s)) affine
             (weightSquare (resolved.truncate ?s)) = Fin 1"
    by (simp add: heldState_def exampleState_def resolved.truncate_def error_affine_start
          lm_state.defs resolved.defs)
  have "fst (levenbergMarquardt 100 inverse2 (\<lambda>k. Fin 0) points affine heldOptions) =
        fst (loop (Suc 99) inverse2 (\<lambda>k. Fin 0) points affine ?s (noCalls\<lparr> errorCalls := Suc 0 \<rparr>))"
    by (simp add: levenbergMarquardt_def c e i)
  also have "\<dots> = fst (loop 99 inverse2 (\<lambda>k. Fin 0) points affine
        (?s\<lparr> parameters := [Fin (701 / 501), Fin 1], damping := Fin (1 / 900),
            error := Fin (130601 / 251001), iteration := Suc 0 \<rparr>)
        \<lparr> errorCalls = 2, stepCalls = 1, timeoutChecks = 1, visited = [?s] \<rparr>)"
    using loop_go [OF g, of 99 inverse2 "\<lambda>k. Fin 0" points affine "noCalls\<lparr> errorCalls := Suc 0 \<rparr>"]
      loopBody_held it
    by simp
  also have "\<dots> = Some (Inr \<lparr> parameterValues = [Fin (701 / 501), Fin 1],
                 parameterError = Fin (130601 / 251001), iterations = 1 \<rparr>)"
    by (subst loop_stop) (simp_all add: running_def finish_def heldState_def exampleState_def)
  finally have run: "fst (levenbergMarquardt 100 inverse2 (\<lambda>k. Fin 0) points affine heldOptions) =
     Some (Inr \<lparr> parameterValues = [Fin (701 / 501), Fin 1],
                 parameterError = Fin (130601 / 251001), iterations = 1 \<rparr>)" .
  have a: "activeParameters [Fin 0, Fin 1] 2 = [1]"
    by (simp add: activeParameters_def elemAt_def upt_rec)
  have r: "differenceRow points (evaluate points [Fin 1, Fin 1] affine) [Fin 1, Fin 1] [Fin 0, Fin 1]
     affine False (Suc 0) = [Fin (- 1), Fin (- 2)]"
    by (simp add: differenceRow_def evaluate_def gradientBody_def setRow_def points_def
          affine_def Let_def zeros_def mset_def elemAt_def nsub_def upt_rec)
  have j: "gradientFunction points (evaluate points [Fin 1, Fin 1] affine) [Fin 1, Fin 1]
           [Fin 0, Fin 1] affine False =
        \<lparr> rows = 2, columns = 2, mdata = [[Fin (- 1), Fin (- 2)], [Fin 0, Fin 0]] \<rparr>"
    by (simp add: evaluate_def gradientFunction_def gradientBody_def setRow_def points_def
          affine_def Let_def zeros_def mset_def elemAt_def nsub_def upt_rec)
  show ?thesis
    by (simp add: a r j run dampedMatrix_shape) (simp add: heldOptions_def)
qed

section \<open>The error across the passes\<close>

lemma nle_Fin: "nle (Fin a) (Fin b) = (a \<le> b)"
  by (auto simp: nle_def)

lemma isFin_valueOf: "isFin v \<Longrightarrow> v = Fin (valueOf v)"
  by (cases v) simp_all

lemma mget_finite:
  assumes "finiteEntries m r c" and "i < r" and "j < c"
  shows "mget m i j = Fin (valueOf (mget m i j))"
proof -
  from assms have "isFin (mdata m ! i ! j)" and "i < length (mdata m)" and "j < length (mdata m ! i)"
    by (auto simp: finiteEntries_def list_all_length)
  then show ?thesis
    by (simp add: mget_def elemAt_def isFin_valueOf [symmetric])
qed

lemma mget_tabulate:
  "i < r \<Longrightarrow> j < c \<Longrightarrow> mget (tabulate r c f) i j = f i j"
  by (simp add: mget_def tabulate_def elemAt_def)

lemma foldl_nadd_finite:
  "(\<And>k. k \<in> set ks \<Longrightarrow> t k = Fin (f k)) \<Longrightarrow>
   foldl (\<lambda>s k. nadd s (t k)) (Fin a) ks = Fin (a + sum_list (map f ks))"
  by (induction ks arbitrary: a) (simp_all add: add.assoc)

lemma foldl_upt_finite:
  assumes "\<And>k. k < n \<Longrightarrow> t k = Fin (f k)"
  shows "foldl (\<lambda>s k. nadd s (t k)) (Fin 0) [0..<n] = Fin (\<Sum>k<n. f k)"
proof -
  have "foldl (\<lambda>s k. nadd s (t k)) (Fin 0) [0..<n] = Fin (0 + sum_list (map f [0..<n]))"
    by (rule foldl_nadd_finite) (simp add: assms)
  also have "sum_list (map f [0..<n]) = (\<Sum>k<n. f k)"
    by (simp add: interv_sum_list_conv_sum_set_nat atLeast0LessThan)
  finally show ?thesis by simp
qed

lemma metric_denominator:
  assumes p: "finiteEntries p n 1" and g: "finiteEntries g n 1"
  shows "mget (mmul (transposeM p) (addM (mulS p (Fin lam)) g)) 0 0 =
         Fin (\<Sum>k<n. valueOf (mget p k 0) * (valueOf (mget p k 0) * lam + valueOf (mget g k 0)))"
proof -
  from p have dp: "rows p = n" "columns p = 1" by (simp_all add: finiteEntries_def)
  have t: "nmul (mget (transposeM p) 0 k) (mget (addM (mulS p (Fin lam)) g) k 0) =
        Fin (valueOf (mget p k 0) * (valueOf (mget p k 0) * lam + valueOf (mget g k 0)))"
    if "k < n" for k
  proof -
    from mget_finite [OF p that, of 0] obtain a where a: "mget p k 0 = Fin a" by simp
    from mget_finite [OF g that, of 0] obtain b where b: "mget g k 0 = Fin b" by simp
    show ?thesis
      using that by (simp add: transposeM_def addM_def mulS_def dp mget_tabulate a b)
  qed
  have "mget (mmul (transposeM p) (addM (mulS p (Fin lam)) g)) 0 0 =
        foldl (\<lambda>s k. nadd s (nmul (mget (transposeM p) 0 k) (mget (addM (mulS p (Fin lam)) g) k 0)))
          (Fin 0) [0..<n]"
    by (simp add: mmul_def mget_tabulate transposeM_def addM_def mulS_def dp)
  also have "\<dots> = Fin (\<Sum>k<n. valueOf (mget p k 0) * (valueOf (mget p k 0) * lam + valueOf (mget g k 0)))"
    by (rule foldl_upt_finite) (rule t)
  finally show ?thesis .
qed

lemma normal_equations_entry:
  assumes j: "finiteEntries jac n m" and p: "finiteEntries p n 1"
    and w: "\<And>i. i < m \<Longrightarrow> isFin (elemAt weights i) \<and> nlt (Fin 0) (elemAt weights i)"
    and k: "k < n"
  shows "mget (mmul (addM (eye n n (Fin lam)) (mmul jac (scaleRow (transposeM jac) weights))) p) k 0 =
         Fin (\<Sum>j<n. ((if k = j then lam else 0) +
                 (\<Sum>i<m. valueOf (mget jac k i) *
                          (valueOf (mget jac j i) / valueOf (elemAt weights i)))) *
               valueOf (mget p j 0))"
proof -
  from j have dj: "rows jac = n" "columns jac = m" by (simp_all add: finiteEntries_def)
  from p have dp: "rows p = n" "columns p = 1" by (simp_all add: finiteEntries_def)
  let ?s = "scaleRow (transposeM jac) weights"
  let ?a = "addM (eye n n (Fin lam)) (mmul jac ?s)"
  have s: "nmul (mget jac a i) (mget ?s i b) =
           Fin (valueOf (mget jac a i) * (valueOf (mget jac b i) / valueOf (elemAt weights i)))"
    if "a < n" "b < n" "i < m" for a b i
  proof -
    from mget_finite [OF j that(1,3)] obtain x where x: "mget jac a i = Fin x" by simp
    from mget_finite [OF j that(2,3)] obtain y where y: "mget jac b i = Fin y" by simp
    from w [OF that(3)] obtain z where z: "elemAt weights i = Fin z" "0 < z"
      by (cases "elemAt weights i") auto
    show ?thesis
      using that z(2) by (simp add: scaleRow_def transposeM_def dj mget_tabulate x y z(1))
  qed
  have a: "mget ?a a b =
           Fin ((if a = b then lam else 0) +
                (\<Sum>i<m. valueOf (mget jac a i) * (valueOf (mget jac b i) / valueOf (elemAt weights i))))"
    if "a < n" "b < n" for a b
  proof -
    have "mget (mmul jac ?s) a b =
          foldl (\<lambda>s i. nadd s (nmul (mget jac a i) (mget ?s i b))) (Fin 0) [0..<m]"
      using that by (simp add: mmul_def mget_tabulate dj scaleRow_def transposeM_def)
    also have "\<dots> = Fin (\<Sum>i<m. valueOf (mget jac a i) *
                              (valueOf (mget jac b i) / valueOf (elemAt weights i)))"
      by (rule foldl_upt_finite) (rule s [OF that])
    finally show ?thesis
      using that by (simp add: addM_def eye_def mget_tabulate)
  qed
  have t: "nmul (mget ?a k b) (mget p b 0) =
        Fin (((if k = b then lam else 0) +
                (\<Sum>i<m. valueOf (mget jac k i) * (valueOf (mget jac b i) / valueOf (elemAt weights i)))) *
             valueOf (mget p b 0))"
    if "b < n" for b
  proof -
    from mget_finite [OF p that, of 0] obtain x where x: "mget p b 0 = Fin x" by simp
    show ?thesis by (simp add: a [OF k that] x)
  qed
  have "mget (mmul ?a p) k 0 = foldl (\<lambda>s b. nadd s (nmul (mget ?a k b) (mget p b 0))) (Fin 0) [0..<n]"
    using k by (simp add: mmul_def mget_tabulate addM_def eye_def dp)
  also have "\<dots> = Fin (\<Sum>j<n. ((if k = j then lam else 0) +
                 (\<Sum>i<m. valueOf (mget jac k i) *
                          (valueOf (mget jac j i) / valueOf (elemAt weights i)))) *
               valueOf (mget p j 0))"
    by (rule foldl_upt_finite) (rule t)
  finally show ?thesis .
qed

lemma quadratic_form_nonneg:
  fixes pv gv :: "nat \<Rightarrow> real" and jv :: "nat \<Rightarrow> nat \<Rightarrow> real" and w :: "nat \<Rightarrow> real"
  assumes g: "\<And>k. k < n \<Longrightarrow>
      gv k = (\<Sum>j<n. ((if k = j then lam else 0) + (\<Sum>i<m. jv k i * (jv j i / w i))) * pv j)"
    and lam: "0 \<le> lam"
    and w: "\<And>i. i < m \<Longrightarrow> 0 < w i"
  shows "0 \<le> (\<Sum>k<n. pv k * (pv k * lam + gv k))"
proof -
  define q where "q i = (\<Sum>k<n. jv k i * pv k)" for i
  have d: "(\<Sum>j<n. (if k = j then lam else 0) * pv j) = lam * pv k" if "k < n" for k
  proof -
    have "(\<Sum>j<n. (if k = j then lam else 0) * pv j) = (\<Sum>j<n. if k = j then lam * pv j else 0)"
      by (rule sum.cong) auto
    also have "\<dots> = lam * pv k" using that by simp
    finally show ?thesis .
  qed
  have e: "(\<Sum>j<n. (\<Sum>i<m. jv k i * (jv j i / w i)) * pv j) = (\<Sum>i<m. jv k i * q i / w i)" for k
  proof -
    have "(\<Sum>i<m. jv k i * (jv j i / w i)) * pv j = (\<Sum>i<m. jv k i * (jv j i * pv j) / w i)"
      for j
      unfolding sum_distrib_right by (rule sum.cong) simp_all
    then have "(\<Sum>j<n. (\<Sum>i<m. jv k i * (jv j i / w i)) * pv j) =
          (\<Sum>j<n. \<Sum>i<m. jv k i * (jv j i * pv j) / w i)"
      by simp
    also have "\<dots> = (\<Sum>i<m. \<Sum>j<n. jv k i * (jv j i * pv j) / w i)"
      by (rule sum.swap)
    also have "\<dots> = (\<Sum>i<m. jv k i * q i / w i)"
    proof (rule sum.cong)
      fix i
      have "(\<Sum>j<n. jv k i * (jv j i * pv j) / w i) = (\<Sum>j<n. jv k i * (jv j i * pv j)) / w i"
        by (simp add: sum_divide_distrib)
      also have "(\<Sum>j<n. jv k i * (jv j i * pv j)) = jv k i * q i"
        by (simp add: q_def sum_distrib_left)
      finally show "(\<Sum>j<n. jv k i * (jv j i * pv j) / w i) = jv k i * q i / w i" .
    qed simp
    finally show ?thesis .
  qed
  have gk: "gv k = lam * pv k + (\<Sum>i<m. jv k i * q i / w i)" if "k < n" for k
    using g [OF that] d [OF that] e [of k] by (simp add: algebra_simps sum.distrib)
  have "pv k * (\<Sum>i<m. jv k i * q i / w i) = (\<Sum>i<m. (jv k i * pv k) * q i / w i)" for k
    unfolding sum_distrib_left by (rule sum.cong) simp_all
  then have "(\<Sum>k<n. pv k * (\<Sum>i<m. jv k i * q i / w i)) = (\<Sum>k<n. \<Sum>i<m. (jv k i * pv k) * q i / w i)"
    by simp
  also have "\<dots> = (\<Sum>i<m. \<Sum>k<n. (jv k i * pv k) * q i / w i)"
    by (rule sum.swap)
  also have "\<dots> = (\<Sum>i<m. q i * q i / w i)"
  proof (rule sum.cong)
    fix i
    have "(\<Sum>k<n. (jv k i * pv k) * q i / w i) = (\<Sum>k<n. (jv k i * pv k) * q i) / w i"
      by (simp add: sum_divide_distrib)
    also have "(\<Sum>k<n. (jv k i * pv k) * q i) = q i * q i"
      by (simp add: q_def sum_distrib_right)
    finally show "(\<Sum>k<n. (jv k i * pv k) * q i / w i) = q i * q i / w i" .
  qed simp
  finally have s: "(\<Sum>k<n. pv k * (\<Sum>i<m. jv k i * q i / w i)) = (\<Sum>i<m. q i * q i / w i)" .
  have "(\<Sum>k<n. pv k * (pv k * lam + gv k)) =
        (\<Sum>k<n. 2 * lam * (pv k * pv k) + pv k * (\<Sum>i<m. jv k i * q i / w i))"
    by (rule sum.cong) (simp_all add: gk algebra_simps)
  also have "\<dots> = (\<Sum>k<n. 2 * lam * (pv k * pv k)) +
                   (\<Sum>k<n. pv k * (\<Sum>i<m. jv k i * q i / w i))"
    by (rule sum.distrib)
  also have "(\<Sum>k<n. 2 * lam * (pv k * pv k)) = 2 * lam * (\<Sum>k<n. pv k * pv k)"
    by (simp only: sum_distrib_left)
  also note s
  finally have t: "(\<Sum>k<n. pv k * (pv k * lam + gv k)) =
      2 * lam * (\<Sum>k<n. pv k * pv k) + (\<Sum>i<m. q i * q i / w i)" .
  have "0 \<le> (\<Sum>k<n. pv k * pv k)" by (rule sum_nonneg) simp
  moreover have "0 \<le> (\<Sum>i<m. q i * q i / w i)"
    by (rule sum_nonneg) (use w in \<open>simp add: less_imp_le\<close>)
  ultimately show ?thesis
    using lam unfolding t by simp
qed


text \<open>
  For an exact step the denominator of the improvement metric is not negative: it is the
  quadratic form of the damped normal matrix at the perturbations.
\<close>

lemma exactStep_denominator:
  assumes "exactStep d params dampingValue gradDiff parameterizedFunction central weights r"
  shows "nle (Fin 0) (metricDenominator (perturbations r) dampingValue (jacobianWeigthResidualError r))"
proof -
  let ?n = "length params" and ?m = "length (elements (data_x d))"
  let ?jac = "gradientFunction d (evaluate d params parameterizedFunction) params gradDiff
                  parameterizedFunction central"
  let ?p = "perturbations r" and ?g = "jacobianWeigthResidualError r"
  from assms have j: "finiteEntries ?jac ?n ?m" and p: "finiteEntries ?p ?n 1"
    and g: "finiteEntries ?g ?n 1"
    and w: "\<And>i. i < ?m \<Longrightarrow> isFin (elemAt weights i) \<and> nlt (Fin 0) (elemAt weights i)"
    and e: "mmul (dampedMatrix d params dampingValue gradDiff parameterizedFunction central weights)
              ?p = ?g"
    by (simp_all add: exactStep_def Let_def list_all_iff)
  from assms obtain lam where lam: "dampingValue = Fin lam" "0 \<le> lam"
    by (cases dampingValue) (auto simp: exactStep_def Let_def nle_def)
  have wpos: "0 < valueOf (elemAt weights i)" if "i < ?m" for i
    using w [OF that] by (cases "elemAt weights i") auto
  have gv: "valueOf (mget ?g k 0) =
      (\<Sum>j<?n. ((if k = j then lam else 0) +
                 (\<Sum>i<?m. valueOf (mget ?jac k i) *
                          (valueOf (mget ?jac j i) / valueOf (elemAt weights i)))) *
               valueOf (mget ?p j 0))" if "k < ?n" for k
  proof -
    have "mget ?g k 0 =
          mget (mmul (addM (eye ?n ?n (Fin lam)) (mmul ?jac (scaleRow (transposeM ?jac) weights))) ?p) k 0"
      using e by (simp add: dampedMatrix_def Let_def lam)
    with normal_equations_entry [OF j p w that, of lam] show ?thesis by simp
  qed
  have "0 \<le> (\<Sum>k<?n. valueOf (mget ?p k 0) * (valueOf (mget ?p k 0) * lam + valueOf (mget ?g k 0)))"
  proof (rule quadratic_form_nonneg [where w = "\<lambda>i. valueOf (elemAt weights i)"
          and jv = "\<lambda>k i. valueOf (mget ?jac k i)" and m = ?m])
    show "valueOf (mget ?g k 0) =
      (\<Sum>j<?n. ((if k = j then lam else 0) +
                 (\<Sum>i<?m. valueOf (mget ?jac k i) *
                          (valueOf (mget ?jac j i) / valueOf (elemAt weights i)))) *
               valueOf (mget ?p j 0))" if "k < ?n" for k
      using that by (rule gv)
    show "0 \<le> lam" by (rule lam(2))
    show "0 < valueOf (elemAt weights i)" if "i < ?m" for i
      using that by (rule wpos)
  qed
  with metric_denominator [OF p g, of lam] show ?thesis
    by (simp add: metricDenominator_def lam nle_Fin)
qed

lemma positive_quotient:
  fixes x dn t :: real
  assumes "0 \<le> t" and "0 < dn" and "t < x / dn"
  shows "0 < x"
proof -
  from assms(1,3) have "0 < x / dn" by linarith
  with assms(2) show ?thesis by (simp add: zero_less_divide_iff)
qed

lemma accepted_means_smaller:
  assumes "nle (Fin 0) threshold" and "nle (Fin 0) denominator"
    and "ngt (ndiv (nsub previousError newError) denominator) threshold"
  shows "nlt newError previousError"
proof -
  from assms(1) consider t where "threshold = Fin t" "0 \<le> t" | "threshold = PInf"
    by (cases threshold) (auto simp: nle_def)
  then show ?thesis
  proof cases
    case 1
    from assms(2) consider dn where "denominator = Fin dn" "0 \<le> dn" | "denominator = PInf"
      by (cases denominator) (auto simp: nle_def)
    then show ?thesis
    proof cases
      case dn: 1
      show ?thesis
      proof (cases "dn = 0")
        case True
        with assms(3) 1 dn show ?thesis
          by (cases previousError; cases newError)
             (auto simp: ngt_def nsub_def signed_def split: if_splits)
      next
        case False
        with dn have "0 < dn" by simp
        with assms(3) 1 dn show ?thesis
          by (cases previousError; cases newError)
             (auto simp: ngt_def nsub_def signed_def split: if_splits
                dest: positive_quotient [rotated 2])
      qed
    next
      case 2
      with assms(3) 1 show ?thesis
        by (cases previousError; cases newError) (auto simp: ngt_def nsub_def)
    qed
  next
    case 2
    with assms(3) show ?thesis
      by (cases "ndiv (nsub previousError newError) denominator") (auto simp: ngt_def)
  qed
qed


lemma pow2_not_negative: "isNaN (pow2 v) \<or> nle (Fin 0) (pow2 v)"
  by (cases v) (auto simp: pow2_def nle_def)

lemma ndiv_not_negative:
  "isNaN a \<or> nle (Fin 0) a \<Longrightarrow> isNaN b \<or> nle (Fin 0) b \<Longrightarrow>
   isNaN (ndiv a b) \<or> nle (Fin 0) (ndiv a b)"
  by (cases a; cases b) (auto simp: nle_def signed_def)

lemma nadd_not_negative:
  "isNaN a \<or> nle (Fin 0) a \<Longrightarrow> isNaN b \<or> nle (Fin 0) b \<Longrightarrow>
   isNaN (nadd a b) \<or> nle (Fin 0) (nadd a b)"
  by (cases a; cases b) (auto simp: nle_def)

lemma errorCalculation_not_negative:
  assumes "\<forall>w\<in>set wSquare. isNaN w \<or> nle (Fin 0) w"
  shows "isNaN (errorCalculation d params parameterizedFunction wSquare) \<or>
         nle (Fin 0) (errorCalculation d params parameterizedFunction wSquare)"
proof -
  have w: "isNaN (elemAt wSquare i) \<or> nle (Fin 0) (elemAt wSquare i)" for i
    using assms by (simp add: elemAt_def)
  have "isNaN (foldl (\<lambda>err i. nadd err (ndiv (pow2 (t i)) (elemAt wSquare i))) acc ks) \<or>
        nle (Fin 0) (foldl (\<lambda>err i. nadd err (ndiv (pow2 (t i)) (elemAt wSquare i))) acc ks)"
    if "isNaN acc \<or> nle (Fin 0) acc" for t acc ks
    using that
  proof (induction ks arbitrary: acc)
    case Nil
    then show ?case by simp
  next
    case (Cons k ks)
    have "isNaN (nadd acc (ndiv (pow2 (t k)) (elemAt wSquare k))) \<or>
          nle (Fin 0) (nadd acc (ndiv (pow2 (t k)) (elemAt wSquare k)))"
      by (intro nadd_not_negative ndiv_not_negative pow2_not_negative w Cons.prems)
    from Cons.IH [OF this] show ?case by simp
  qed
  then show ?thesis
    by (simp add: errorCalculation_def Let_def nle_def)
qed

lemma checkOptions_weightSquare:
  assumes "checkOptions d parameterizedFunction opts now = Inr r"
  shows "\<forall>w\<in>set (weightSquare r). isNaN w \<or> nle (Fin 0) w"
proof -
  have f: "isNaN (ndiv (Fin 1) (pow2 v)) \<or> nle (Fin 0) (ndiv (Fin 1) (pow2 v))" for v
    by (intro ndiv_not_negative pow2_not_negative) (simp add: nle_def)
  from assms obtain filler where
    "resolveFiller (jsDefault (opt_weights opts) (JNumber (Fin 1))) (length (elements (data_x d))) =
       Inr filler"
    and ws: "weightSquare r = map filler [0..<length (elements (data_y d))]"
    by (auto simp: checkOptions_def Let_def split: if_splits sum.splits)
  then have "isNaN (filler i) \<or> nle (Fin 0) (filler i)" for i
    using f by (auto simp: resolveFiller_def split: jsval.splits if_splits)
  with ws show ?thesis by auto
qed

text \<open>
  C1, as amended. With the squared weights of \<open>checkOptions\<close>, the value of
  \<open>errorCalculation\<close> is never negative: it is \<open>NaN\<close> or at least \<open>0\<close>. In a pass of the
  loop whose new error is not \<open>NaN\<close> (and where the timeout does not expire): when the
  improvement metric exceeds \<open>improvementThreshold\<close> the step is accepted and the new error
  is recorded, and it is smaller than the previous error provided that
  \<open>improvementThreshold\<close> is not negative and the denominator of the metric is not
  negative; otherwise the step is rejected and the recorded error is the previous error
  again.
\<close>

theorem error_nonnegative_and_monotone:
  assumes "checkOptions d parameterizedFunction opts now = Inr r0"
    and "weightSquare s = weightSquare r0"
    and "step mlInverse d (parameters s) (damping s) (gradientDifference s)
           parameterizedFunction (centralDifference s) (weightSquare s) = Inr r"
    and "trial = clampParameters (minValues s) (maxValues s) (parameters s) (perturbations r)"
    and "newError = errorCalculation d trial parameterizedFunction (weightSquare s)"
    and "\<not> isNaN newError"
    and "\<not> checkTimeout s (clock (timeoutChecks g + 1))"
    and "metric = improvementMetric (error s) newError (perturbations r) (damping s)
                    (jacobianWeigthResidualError r)"
  shows "(\<forall>params. isNaN (errorCalculation d params parameterizedFunction (weightSquare r0)) \<or>
            nle (Fin 0) (errorCalculation d params parameterizedFunction (weightSquare r0))) \<and>
         nle (Fin 0) newError \<and>
         (ngt metric (improvementThreshold s) \<longrightarrow>
            (\<exists>s' g'. loopBody mlInverse clock d parameterizedFunction s g = (Continue s', g') \<and>
               error s' = newError \<and>
               (nle (Fin 0) (improvementThreshold s) \<and>
                nle (Fin 0) (metricDenominator (perturbations r) (damping s)
                               (jacobianWeigthResidualError r))
                \<longrightarrow> nlt (error s') (error s)))) \<and>
         (\<not> ngt metric (improvementThreshold s) \<longrightarrow>
            (\<exists>s' g'. loopBody mlInverse clock d parameterizedFunction s g = (Continue s', g') \<and>
               error s' = error s))"
proof -
  have a: "isNaN (errorCalculation d params parameterizedFunction (weightSquare r0)) \<or>
           nle (Fin 0) (errorCalculation d params parameterizedFunction (weightSquare r0))"
    for params
    by (rule errorCalculation_not_negative) (rule checkOptions_weightSquare [OF assms(1)])
  from a [of trial] assms(2,5,6) have n: "nle (Fin 0) newError" by simp
  have acc: "\<exists>s' g'. loopBody mlInverse clock d parameterizedFunction s g = (Continue s', g') \<and>
               error s' = newError \<and>
               (nle (Fin 0) (improvementThreshold s) \<and>
                nle (Fin 0) (metricDenominator (perturbations r) (damping s)
                               (jacobianWeigthResidualError r))
                \<longrightarrow> nlt (error s') (error s))"
    if m: "ngt metric (improvementThreshold s)"
  proof -
    have dn: "nlt newError (error s)"
      if "nle (Fin 0) (improvementThreshold s)"
        and "nle (Fin 0) (metricDenominator (perturbations r) (damping s)
                                (jacobianWeigthResidualError r))"
      using accepted_means_smaller [OF that] m assms(8)
      by (simp add: improvementMetric_def metricDenominator_def)
    obtain f g' where b: "loopBody mlInverse clock d parameterizedFunction s g = (f, g')"
      by (cases "loopBody mlInverse clock d parameterizedFunction s g")
    with assms(3-8) m obtain s' where "f = Continue s'" "error s' = newError"
      by (auto simp: loopBody_def Let_def)
    with b dn show ?thesis by auto
  qed
  have rej: "\<exists>s' g'. loopBody mlInverse clock d parameterizedFunction s g = (Continue s', g') \<and>
               error s' = error s"
    if m: "\<not> ngt metric (improvementThreshold s)"
  proof -
    obtain f g' where b: "loopBody mlInverse clock d parameterizedFunction s g = (f, g')"
      by (cases "loopBody mlInverse clock d parameterizedFunction s g")
    with assms(3-8) m obtain s' where "f = Continue s'" "error s' = error s"
      by (auto simp: loopBody_def Let_def)
    with b show ?thesis by auto
  qed
  from a n acc rej show ?thesis by blast
qed

lemma exactStep_line:
  "exactStep points [Fin 1] (Fin (1 / 100)) [Fin (1 / 10)] line False [Fin 1, Fin 1]
     \<lparr> perturbations = single (Fin (- (500 / 501))),
       jacobianWeigthResidualError = single (Fin (- 5)) \<rparr>"
  by (simp add: exactStep_def finiteEntries_def dampedMatrix_def evaluate_def gradientFunction_def
        gradientBody_def setRow_def points_def line_def Let_def tabulate_def zeros_def eye_def
        mget_def mset_def transposeM_def scaleRow_def mmul_def addM_def elemAt_def nsub_def
        upt_rec single_def nle_def)

theorem error_nonnegative_and_monotone_witness:
  "nle (Fin 0) (Fin (5 / 251001)) \<and>
   (\<exists>s' g'. loopBody inverse1 (\<lambda>k. Fin 0) points line exampleState noCalls = (Continue s', g') \<and>
      error s' = Fin (5 / 251001) \<and> nlt (error s') (error exampleState))"
proof -
  from checkOptions_points_line [of None]
  obtain r0 where r0: "checkOptions points line noOptions (Fin 0) = Inr r0"
    and w: "weightSquare r0 = [Fin 1, Fin 1]"
    by (auto simp: orDefault_def nle_def noOptions_def)
  let ?r = "\<lparr> perturbations = single (Fin (- (500 / 501))),
             jacobianWeigthResidualError = single (Fin (- 5)) \<rparr>"
  have st: "step inverse1 points (parameters exampleState) (damping exampleState)
          (gradientDifference exampleState) line (centralDifference exampleState)
          (weightSquare exampleState) = Inr ?r"
    by (simp add: exampleState_def step_line)
  have ex: "exactStep points (parameters exampleState) (damping exampleState)
          (gradientDifference exampleState) line (centralDifference exampleState)
          (weightSquare exampleState) ?r"
    by (simp add: exampleState_def exactStep_line)
  have tr: "[Fin (1001 / 501)] = clampParameters (minValues exampleState) (maxValues exampleState)
          (parameters exampleState) (perturbations ?r)"
    by (simp add: exampleState_def clamp_line)
  have er: "Fin (5 / 251001) = errorCalculation points [Fin (1001 / 501)] line
          (weightSquare exampleState)"
    by (simp add: exampleState_def error_line_trial)
  have me: "Fin 1 = improvementMetric (error exampleState) (Fin (5 / 251001)) (perturbations ?r)
          (damping exampleState) (jacobianWeigthResidualError ?r)"
    by (simp add: exampleState_def metric_line)
  have ws: "weightSquare exampleState = weightSquare r0"
    by (simp add: exampleState_def w)
  have th: "ngt (Fin 1) (improvementThreshold exampleState)"
    "nle (Fin 0) (improvementThreshold exampleState)"
    "\<not> checkTimeout exampleState reading" for reading
    by (simp_all add: exampleState_def ngt_def nle_def)
  from exactStep_denominator [OF ex]
  have dn: "nle (Fin 0) (metricDenominator (perturbations ?r) (damping exampleState)
              (jacobianWeigthResidualError ?r))" .
  from error_nonnegative_and_monotone [OF r0 ws st tr er _ _ me, of "\<lambda>k. Fin 0" noCalls] th dn
  show ?thesis by auto
qed

lemma clamp_rising:
  "clampParameters [Fin 4] [Fin 4] [Fin 1] (single (Fin (- (500 / 501)))) = [Fin 4]"
  by (simp add: single_def clampParameters_def mget_def elemAt_def nmin_def nmax_def nsub_def)

lemma error_rising:
  "errorCalculation points [Fin 4] line [Fin 1, Fin 1] = Fin 20"
  by (simp add: errorCalculation_def points_def line_def elemAt_def pow2_def nsub_def upt_rec)

lemma metric_rising:
  "improvementMetric (Fin 5) (Fin 20) (single (Fin (- (500 / 501)))) (Fin (1 / 100))
     (single (Fin (- 5))) = Fin (- (753003 / 251000))"
  by (simp add: single_def improvementMetric_def tabulate_def mget_def transposeM_def mmul_def
        addM_def mulS_def elemAt_def nsub_def upt_rec)

lemma step_falling:
  "step inverse1 points [Fin 4] (Fin (- 10)) [Fin (1 / 10)] line False [Fin 1, Fin 1] =
   Inr \<lparr> perturbations = single (Fin (- 2)), jacobianWeigthResidualError = single (Fin 10) \<rparr>"
  by (simp add: step_def dampedMatrix_def evaluate_def gradientFunction_def gradientBody_def
        matrixFunction_def setRow_def inverse1_def points_def line_def Let_def
        tabulate_def zeros_def eye_def mget_def mset_def transposeM_def scaleRow_def mmul_def
        addM_def elemAt_def nsub_def upt_rec single_def)

lemma clamp_falling:
  "clampParameters [Fin 4] [Fin 4] [Fin 4] (single (Fin (- 2))) = [Fin 4]"
  by (simp add: single_def clampParameters_def mget_def elemAt_def nmin_def nmax_def nsub_def)

lemma denominator_falling:
  "metricDenominator (single (Fin (- 2))) (Fin (- 10)) (single (Fin 10)) = Fin (- 60)"
  by (simp add: single_def metricDenominator_def tabulate_def mget_def transposeM_def mmul_def
        addM_def mulS_def elemAt_def upt_rec)

lemma metric_falling:
  "improvementMetric (Fin 5) (Fin 20) (single (Fin (- 2))) (Fin (- 10)) (single (Fin 10)) =
   Fin (1 / 4)"
  by (simp add: single_def improvementMetric_def tabulate_def mget_def transposeM_def mmul_def
        addM_def mulS_def elemAt_def nsub_def upt_rec)

lemma run_rising:
  "levenbergMarquardt 100 inverse1 (\<lambda>k. Fin 0) points line risingOptions =
     (Some (Inr \<lparr> parameterValues = [Fin 4], parameterError = Fin 20, iterations = 1 \<rparr>),
      \<lparr> errorCalls = 2, stepCalls = 1, timeoutChecks = 1, visited = [risingState] \<rparr>)"
proof -
  let ?s = risingState
  let ?g = "noCalls\<lparr> errorCalls := Suc 0 \<rparr>"
  let ?s1 = "?s\<lparr> parameters := [Fin 4], error := Fin 20, damping := Fin (1 / 900) \<rparr>"
  let ?g1 = "\<lparr> errorCalls = 2, stepCalls = 1, timeoutChecks = 1, visited = [?s] \<rparr>"
  have c: "checkOptions points line risingOptions (Fin 0) = Inr (resolved.truncate ?s)"
    by (simp add: checkOptions_def points_def line_def risingOptions_def noOptions_def Let_def
          jsDefault_def orDefault_def nle_def resolveGradientDifference_def resolveFiller_def
          resolveTimeout_def pow2_def upt_rec risingState_def exampleState_def
          resolved.truncate_def lm_state.defs resolved.defs)
  have i: "initialState (resolved.truncate ?s) (Fin 5) = ?s"
    by (simp add: initialState_def risingState_def exampleState_def resolved.truncate_def nle_def
          lm_state.defs resolved.defs)
  have e: "errorCalculation points (parameters (resolved.truncate ?s)) line
             (weightSquare (resolved.truncate ?s)) = Fin 5"
    by (simp add: risingState_def exampleState_def resolved.truncate_def
          errorCalculation_points_line lm_state.defs resolved.defs)
  have b: "loopBody inverse1 (\<lambda>k. Fin 0) points line ?s ?g = (Continue ?s1, ?g1)"
    by (simp add: loopBody_def Let_def risingState_def exampleState_def step_line
          clamp_rising error_rising metric_rising ngt_def nmax_def nle_def noCalls_def)
  have g: "running ?s"
    by (simp add: running_def risingState_def exampleState_def)
  have it: "iteration ?s = 0"
    by (simp add: risingState_def exampleState_def)
  have "levenbergMarquardt 100 inverse1 (\<lambda>k. Fin 0) points line risingOptions =
        loop (Suc 99) inverse1 (\<lambda>k. Fin 0) points line ?s ?g"
    by (simp add: levenbergMarquardt_def c e i)
  also have "\<dots> = loop 99 inverse1 (\<lambda>k. Fin 0) points line (?s1\<lparr> iteration := Suc 0 \<rparr>) ?g1"
    using loop_go [OF g, of 99 inverse1 "\<lambda>k. Fin 0" points line ?g] b it by simp
  also have "\<dots> = (Some (Inr \<lparr> parameterValues = [Fin 4], parameterError = Fin 20, iterations = 1 \<rparr>), ?g1)"
    by (subst loop_stop) (simp_all add: running_def finish_def risingState_def exampleState_def)
  finally show ?thesis .
qed

lemma run_negativeStepUp:
  "levenbergMarquardt 100 inverse1 (\<lambda>k. Fin 0) points line negativeStepUp =
     (Some (Inr \<lparr> parameterValues = [Fin 4], parameterError = Fin 20, iterations = 2 \<rparr>),
      \<lparr> errorCalls = 3, stepCalls = 2, timeoutChecks = 2,
        visited = [negativeStepUpState,
          negativeStepUpState\<lparr> parameters := [Fin 4], damping := Fin (- 10), iteration := 1 \<rparr>] \<rparr>)"
proof -
  let ?s = negativeStepUpState
  let ?g = "noCalls\<lparr> errorCalls := Suc 0 \<rparr>"
  let ?s1 = "?s\<lparr> parameters := [Fin 4], damping := Fin (- 10) \<rparr>"
  let ?g1 = "\<lparr> errorCalls = 2, stepCalls = 1, timeoutChecks = 1, visited = [?s] \<rparr>"
  let ?t = "?s\<lparr> parameters := [Fin 4], damping := Fin (- 10), iteration := Suc 0 \<rparr>"
  let ?t1 = "?t\<lparr> error := Fin 20, damping := Fin (1 / 10000000) \<rparr>"
  let ?g2 = "\<lparr> errorCalls = 3, stepCalls = 2, timeoutChecks = 2, visited = [?s, ?t] \<rparr>"
  have c: "checkOptions points line negativeStepUp (Fin 0) = Inr (resolved.truncate ?s)"
    by (simp add: checkOptions_def points_def line_def negativeStepUp_def noOptions_def Let_def
          jsDefault_def orDefault_def nle_def resolveGradientDifference_def resolveFiller_def
          resolveTimeout_def pow2_def upt_rec negativeStepUpState_def exampleState_def
          resolved.truncate_def lm_state.defs resolved.defs)
  have i: "initialState (resolved.truncate ?s) (Fin 5) = ?s"
    by (simp add: initialState_def negativeStepUpState_def exampleState_def resolved.truncate_def
          nle_def lm_state.defs resolved.defs)
  have e: "errorCalculation points (parameters (resolved.truncate ?s)) line
             (weightSquare (resolved.truncate ?s)) = Fin 5"
    by (simp add: negativeStepUpState_def exampleState_def resolved.truncate_def
          errorCalculation_points_line lm_state.defs resolved.defs)
  have b: "loopBody inverse1 (\<lambda>k. Fin 0) points line ?s ?g = (Continue ?s1, ?g1)"
    by (simp add: loopBody_def Let_def negativeStepUpState_def exampleState_def step_line
          clamp_rising error_rising metric_rising ngt_def nmin_def nle_def noCalls_def)
  have b1: "loopBody inverse1 (\<lambda>k. Fin 0) points line ?t ?g1 = (Continue ?t1, ?g2)"
    by (simp add: loopBody_def Let_def negativeStepUpState_def exampleState_def step_falling
          clamp_falling error_rising metric_falling ngt_def nmax_def nle_def)
  have g: "running ?s"
    by (simp add: running_def negativeStepUpState_def exampleState_def)
  have g1: "running ?t"
    by (simp add: running_def negativeStepUpState_def exampleState_def)
  have it: "iteration ?s = 0"
    by (simp add: negativeStepUpState_def exampleState_def)
  have "levenbergMarquardt 100 inverse1 (\<lambda>k. Fin 0) points line negativeStepUp =
        loop (Suc 99) inverse1 (\<lambda>k. Fin 0) points line ?s ?g"
    by (simp add: levenbergMarquardt_def c e i)
  also have "\<dots> = loop (Suc 98) inverse1 (\<lambda>k. Fin 0) points line ?t ?g1"
    using loop_go [OF g, of 99 inverse1 "\<lambda>k. Fin 0" points line ?g] b it by simp
  also have "\<dots> = loop 98 inverse1 (\<lambda>k. Fin 0) points line (?t1\<lparr> iteration := Suc (Suc 0) \<rparr>) ?g2"
    using loop_go [OF g1, of 98 inverse1 "\<lambda>k. Fin 0" points line ?g1] b1 by simp
  also have "\<dots> = (Some (Inr \<lparr> parameterValues = [Fin 4], parameterError = Fin 20, iterations = 2 \<rparr>), ?g2)"
    by (subst loop_stop)
       (simp_all add: running_def finish_def negativeStepUpState_def exampleState_def)
  finally show ?thesis by simp
qed

text \<open>
  The claim C1 as stated fails in three ways. The error can be \<open>NaN\<close>: with the model
  \<open>p[0] / x\<close>, a sample at \<open>x = 0\<close> and the parameter \<open>0\<close>, a model value is \<open>0 / 0\<close>. A
  negative \<open>improvementThreshold\<close> passes \<open>checkOptions\<close>: with both bounds at \<open>4\<close> the
  first pass clamps the parameter to \<open>4\<close>, the error rises from \<open>5\<close> to \<open>20\<close>, the metric is
  about \<open>-3\<close>, above the threshold \<open>-4\<close>: the step is accepted and the recorded error \<open>20\<close>
  is returned. And with the default threshold the denominator of the metric can be
  negative: with both bounds at \<open>4\<close> and \<open>dampingStepUp = -1000\<close> the first pass is
  rejected, which leaves the parameter at \<open>4\<close>, the recorded error at \<open>5\<close> and the damping
  at \<open>-10\<close>; in the second pass the error is \<open>20\<close>, the denominator is \<open>-60\<close> and the metric
  \<open>1 / 4\<close>, so the step is accepted and the recorded error rises from \<open>5\<close> to \<open>20\<close>.
\<close>

theorem rising_error_counterexample:
  "(\<exists>r. checkOptions pointsFromZero inverseLaw noOptions (Fin 0) = Inr r \<and>
        errorCalculation pointsFromZero [Fin 0] inverseLaw (weightSquare r) = NaN) \<and>
   \<not> nle (Fin 0) NaN \<and>
   step inverse1 points [Fin 1] (Fin (1 / 100)) [Fin (1 / 10)] line False [Fin 1, Fin 1] =
     Inr \<lparr> perturbations = single (Fin (- (500 / 501))),
           jacobianWeigthResidualError = single (Fin (- 5)) \<rparr> \<and>
   ngt (improvementMetric (Fin 5) (Fin 20) (single (Fin (- (500 / 501)))) (Fin (1 / 100))
          (single (Fin (- 5)))) (Fin (- 4)) \<and>
   map error (visited (snd (levenbergMarquardt 100 inverse1 (\<lambda>k. Fin 0) points line risingOptions))) =
     [Fin 5] \<and>
   fst (levenbergMarquardt 100 inverse1 (\<lambda>k. Fin 0) points line risingOptions) =
     Some (Inr \<lparr> parameterValues = [Fin 4], parameterError = Fin 20, iterations = 1 \<rparr>) \<and>
   nlt (Fin 5) (Fin 20) \<and>
   opt_improvementThreshold negativeStepUp = None \<and>
   step inverse1 points [Fin 4] (Fin (- 10)) [Fin (1 / 10)] line False [Fin 1, Fin 1] =
     Inr \<lparr> perturbations = single (Fin (- 2)), jacobianWeigthResidualError = single (Fin 10) \<rparr> \<and>
   metricDenominator (single (Fin (- 2))) (Fin (- 10)) (single (Fin 10)) = Fin (- 60) \<and>
   ngt (improvementMetric (Fin 5) (Fin 20) (single (Fin (- 2))) (Fin (- 10)) (single (Fin 10)))
     (Fin (1 / 1000)) \<and>
   map (\<lambda>s. (parameters s, error s, damping s))
     (visited (snd (levenbergMarquardt 100 inverse1 (\<lambda>k. Fin 0) points line negativeStepUp))) =
     [([Fin 1], Fin 5, Fin (1 / 100)), ([Fin 4], Fin 5, Fin (- 10))] \<and>
   fst (levenbergMarquardt 100 inverse1 (\<lambda>k. Fin 0) points line negativeStepUp) =
     Some (Inr \<lparr> parameterValues = [Fin 4], parameterError = Fin 20, iterations = 2 \<rparr>)"
proof -
  have "\<exists>r. checkOptions pointsFromZero inverseLaw noOptions (Fin 0) = Inr r \<and>
          weightSquare r = [Fin 1, Fin 1]"
    by (simp add: checkOptions_def pointsFromZero_def inverseLaw_def noOptions_def Let_def
          jsDefault_def orDefault_def nle_def resolveGradientDifference_def resolveFiller_def
          resolveTimeout_def pow2_def upt_rec)
  then have n: "\<exists>r. checkOptions pointsFromZero inverseLaw noOptions (Fin 0) = Inr r \<and>
        errorCalculation pointsFromZero [Fin 0] inverseLaw (weightSquare r) = NaN"
    by (auto simp: error_inverseLaw)
  have a: "map error (visited (snd (levenbergMarquardt 100 inverse1 (\<lambda>k. Fin 0) points line
             risingOptions))) = [Fin 5] \<and>
     fst (levenbergMarquardt 100 inverse1 (\<lambda>k. Fin 0) points line risingOptions) =
       Some (Inr \<lparr> parameterValues = [Fin 4], parameterError = Fin 20, iterations = 1 \<rparr>)"
    by (simp add: run_rising risingState_def exampleState_def)
  have b: "map (\<lambda>s. (parameters s, error s, damping s))
     (visited (snd (levenbergMarquardt 100 inverse1 (\<lambda>k. Fin 0) points line negativeStepUp))) =
     [([Fin 1], Fin 5, Fin (1 / 100)), ([Fin 4], Fin 5, Fin (- 10))] \<and>
   fst (levenbergMarquardt 100 inverse1 (\<lambda>k. Fin 0) points line negativeStepUp) =
     Some (Inr \<lparr> parameterValues = [Fin 4], parameterError = Fin 20, iterations = 2 \<rparr>)"
    by (simp add: run_negativeStepUp negativeStepUpState_def exampleState_def)
  have c: "opt_improvementThreshold negativeStepUp = None"
    by (simp add: negativeStepUp_def noOptions_def)
  from n a b c show ?thesis
    by (simp add: step_line metric_rising step_falling denominator_falling metric_falling
          ngt_def nle_def)
qed

end
